theory Spec2Isabelle
  imports Main
begin

section \<open>JavaScript values\<close>

text \<open>
  The library (src/StrictRedux.js) is a thin layer over plain JavaScript objects, so the
  embedding starts with the fragment of the language it relies on.

  \<^item> An object carries a reference (its identity), its prototype chain and its own
    enumerable properties in insertion order. The library never mutates a state object in
    place, so objects are immutable values tagged with their reference; \<open>===\<close> on objects
    compares references. Fresh references come from a counter that the model threads
    through every operation that evaluates an object literal.
  \<^item> Numbers are restricted to integers, strings to sequences of code units below 256.
  \<^item> A property that is missing on an object is looked up on \<open>Object.prototype\<close>, as every
    object literal inherits from it; the members of other prototypes are not modelled.
\<close>

datatype proto = ObjectProto | ErrorProto | FunctionProto | StringProto | NumberProto
  | BooleanProto | UserProto nat

datatype jsval =
    VUndef
  | VNull
  | VBool bool
  | VNum int
  | VStr string
  | VObj nat "proto list" "(string \<times> jsval) list"
  | VBuiltin string
  | VFunction string

datatype error =
    Error string
  | TypeError string
  | InheritedCall string
  | Unmodelled string

text \<open>
  \<open>VBuiltin k\<close> is the value of the member \<open>k\<close> of \<open>Object.prototype\<close>, \<open>VFunction f\<close> any
  other function object, known by a name; the model calls neither.

  \<open>Error m\<close> is \<open>throw new Error(m)\<close>, \<open>TypeError\<close> an exception of the engine.
  \<open>InheritedCall k\<close> records that a public operation has called the member \<open>k\<close> of
  \<open>Object.prototype\<close> where it expected a registered selector or bound action; what that
  member returns or throws goes to the caller of the operation and is outside the model.
  \<open>Unmodelled\<close> marks a behaviour of the engine that the model does not follow.
\<close>

fun truthy :: "jsval \<Rightarrow> bool" where
  "truthy VUndef = False"
| "truthy VNull = False"
| "truthy (VBool b) = b"
| "truthy (VNum n) = (n \<noteq> 0)"
| "truthy (VStr s) = (s \<noteq> [])"
| "truthy (VObj r c ps) = True"
| "truthy (VBuiltin k) = True"
| "truthy (VFunction f) = True"

fun strict_eq :: "jsval \<Rightarrow> jsval \<Rightarrow> bool" where
  "strict_eq (VObj r c ps) (VObj r' c' ps') = (r = r')"
| "strict_eq (VObj r c ps) v = False"
| "strict_eq v (VObj r c ps) = False"
| "strict_eq v w = (v = w)"

fun proto_chain :: "jsval \<Rightarrow> proto list" where
  "proto_chain (VObj r c ps) = c"
| "proto_chain (VBuiltin k) = [FunctionProto, ObjectProto]"
| "proto_chain (VFunction f) = [FunctionProto, ObjectProto]"
| "proto_chain (VStr s) = [StringProto, ObjectProto]"
| "proto_chain (VNum n) = [NumberProto, ObjectProto]"
| "proto_chain (VBool b) = [BooleanProto, ObjectProto]"
| "proto_chain VUndef = []"
| "proto_chain VNull = []"

fun is_object :: "jsval \<Rightarrow> bool" where
  "is_object (VObj r c ps) = True"
| "is_object (VBuiltin k) = True"
| "is_object (VFunction f) = True"
| "is_object v = False"

text \<open>\<open>v instanceof Error\<close>: false on a primitive, otherwise a walk up the prototype chain.\<close>

definition instanceofError :: "jsval \<Rightarrow> bool" where
  "instanceofError v = (is_object v \<and> ErrorProto \<in> set (proto_chain v))"

text \<open>
  \<open>Object.getPrototypeOf(v) instanceof Error\<close>: the prototype of \<open>v\<close> is the head of its
  chain, and the chain of that object is the rest (\<open>null instanceof Error\<close> is false). A
  primitive is converted to an object first, as from ECMAScript 2015 on.
\<close>

definition prototypeInstanceofError :: "jsval \<Rightarrow> bool" where
  "prototypeInstanceofError v = (ErrorProto \<in> set (tl (proto_chain v)))"

subsection \<open>Property lists\<close>

definition object_prototype_keys :: "string list" where
  "object_prototype_keys =
    [''constructor'', ''__defineGetter__'', ''__defineSetter__'', ''hasOwnProperty'',
     ''__lookupGetter__'', ''__lookupSetter__'', ''isPrototypeOf'', ''propertyIsEnumerable'',
     ''toString'', ''valueOf'', ''__proto__'', ''toLocaleString'']"

datatype 'a member = Registered 'a | Inherited string

text \<open>
  \<open>obj[k]\<close> on an object literal whose own properties are \<open>ps\<close>: \<open>None\<close> is \<open>undefined\<close>.
  Registered values are functions and the members of \<open>Object.prototype\<close> are functions or
  objects, so the result is truthy exactly when it is \<open>Some\<close>.
\<close>

definition lookup :: "(string \<times> 'a) list \<Rightarrow> string \<Rightarrow> 'a member option" where
  "lookup ps k =
    (case map_of ps k of
       Some v \<Rightarrow> Some (Registered v)
     | None \<Rightarrow> if k \<in> set object_prototype_keys then Some (Inherited k) else None)"

text \<open>
  \<open>obj[k] = v\<close>, and the definition of a property by a spread or by a computed key: an
  existing key keeps its place, a new key goes last. The keys are taken in insertion
  order, which is the order of \<open>Object.keys\<close> for the full names of selectors and actions
  (they contain the separator, so none is an array index). Two things are outside the
  model. The engine lists the keys that are array indices first, in numeric order: a
  slice name or a key of a state may be one, and the model keeps it where it was
  inserted. The assignment \<open>obj['__proto__'] = v\<close> replaces the prototype of \<open>obj\<close> and
  adds no key, whereas \<open>put\<close> adds the key: the registries are filled by assignment, so
  the model covers the instances none of whose full names or slice names is \<open>__proto__\<close>.
\<close>

fun put :: "string \<Rightarrow> 'a \<Rightarrow> (string \<times> 'a) list \<Rightarrow> (string \<times> 'a) list" where
  "put k v [] = [(k, v)]"
| "put k v (p # ps) = (if fst p = k then (k, v) # ps else p # put k v ps)"

text \<open>\<open>{...a, ...b}\<close> on property lists.\<close>

definition assign :: "(string \<times> 'a) list \<Rightarrow> (string \<times> 'a) list \<Rightarrow> (string \<times> 'a) list" where
  "assign a b = foldl (\<lambda>acc p. put (fst p) (snd p) acc) a b"

function dec :: "nat \<Rightarrow> string" where
  "dec n =
    (if n < 10 then [''0123456789'' ! n] else dec (n div 10) @ [''0123456789'' ! (n mod 10)])"
  by pat_completeness auto
termination
  by (relation "measure (\<lambda>n. n)") auto

text \<open>
  The own enumerable properties that a spread copies: those of an object, the indexed
  characters of a string, nothing for any other value (\<open>{...undefined}\<close> is \<open>{}\<close>).
\<close>

fun own_props :: "jsval \<Rightarrow> (string \<times> jsval) list" where
  "own_props (VObj r c ps) = ps"
| "own_props (VStr s) = map (\<lambda>i. (dec i, VStr [s ! i])) [0..<length s]"
| "own_props v = []"

text \<open>\<open>v[k]\<close> for a value that is neither \<open>undefined\<close> nor \<open>null\<close>.\<close>

fun get_field :: "jsval \<Rightarrow> string \<Rightarrow> jsval" where
  "get_field (VObj r c ps) k =
    (case map_of ps k of
       Some v \<Rightarrow> v
     | None \<Rightarrow> if ObjectProto \<in> set c \<and> k \<in> set object_prototype_keys then VBuiltin k else VUndef)"
| "get_field (VStr s) k =
    (case map_of (own_props (VStr s)) k of
       Some v \<Rightarrow> v
     | None \<Rightarrow> if k = ''length'' then VNum (int (length s)) else VUndef)"
| "get_field v k = VUndef"

text \<open>\<open>v[k]\<close> in general: reading a property of \<open>undefined\<close> or \<open>null\<close> throws.\<close>

fun read_prop :: "jsval \<Rightarrow> string \<Rightarrow> error + jsval" where
  "read_prop VUndef k = Inl (TypeError (''Cannot read property '' @ k @ '' of undefined''))"
| "read_prop VNull k = Inl (TypeError (''Cannot read property '' @ k @ '' of null''))"
| "read_prop v k = Inr (get_field v k)"

text \<open>\<open>Object.keys(v)\<close>.\<close>

fun object_keys :: "jsval \<Rightarrow> error + string list" where
  "object_keys VUndef = Inl (TypeError ''Cannot convert undefined or null to object'')"
| "object_keys VNull = Inl (TypeError ''Cannot convert undefined or null to object'')"
| "object_keys v = Inr (map fst (own_props v))"

text \<open>
  The conversion of a value to a string or a property key: a plain object converts to
  \<open>[object Object]\<close>.
\<close>

fun js_toString :: "jsval \<Rightarrow> error + string" where
  "js_toString (VStr s) = Inr s"
| "js_toString (VNum n) = Inr (if n < 0 then ''-'' @ dec (nat (- n)) else dec (nat n))"
| "js_toString (VBool b) = Inr (if b then ''true'' else ''false'')"
| "js_toString VUndef = Inr ''undefined''"
| "js_toString VNull = Inr ''null''"
| "js_toString (VObj r c ps) =
    (if c = [ObjectProto] \<and> map_of ps ''toString'' = None \<and> map_of ps ''valueOf'' = None
     then Inr ''[object Object]''
     else Inl (Unmodelled ''conversion of an object that is not plain''))"
| "js_toString (VBuiltin k) = Inl (Unmodelled ''conversion of a function'')"
| "js_toString (VFunction f) = Inl (Unmodelled ''conversion of a function'')"

fun is_callable :: "jsval \<Rightarrow> bool" where
  "is_callable (VBuiltin k) = (k \<noteq> ''__proto__'')"
| "is_callable (VFunction f) = True"
| "is_callable v = False"

subsection \<open>Strings\<close>

definition SliceSeparator :: char where
  "SliceSeparator = CHR ''_''"

definition QuerySeparator :: char where
  "QuerySeparator = CHR '',''"

definition startsWith :: "string \<Rightarrow> string \<Rightarrow> bool" where
  "startsWith s p = (take (length p) s = p)"

text \<open>\<open>s.split(sep)\<close> for a separator of one character: \<open>''''.split(sep)\<close> is \<open>['''']\<close>.\<close>

fun split :: "char \<Rightarrow> string \<Rightarrow> string list" where
  "split sep [] = [[]]"
| "split sep (c # cs) =
    (if c = sep then [] # split sep cs
     else (case split sep cs of [] \<Rightarrow> [[c]] | p # ps \<Rightarrow> (c # p) # ps))"

text \<open>The white space and line terminators of ECMAScript that are code units below 256.\<close>

definition is_space :: "char \<Rightarrow> bool" where
  "is_space c = (c \<in> set [CHR 0x09, CHR 0x0A, CHR 0x0B, CHR 0x0C, CHR 0x0D, CHR 0x20, CHR 0xA0])"

definition trim :: "string \<Rightarrow> string" where
  "trim s = rev (dropWhile is_space (rev (dropWhile is_space s)))"

section \<open>The query router\<close>

text \<open>
  \<open>_normalizeQuery(queryString, propertyName)\<close>, with the registry \<open>this[propertyName]\<close>
  passed beside its name. The argument is a string, which settles the \<open>typeof\<close> guard. The
  body of the callback of \<open>reduce\<close> up to the length check is \<open>resolveClause\<close>.
\<close>

definition resolveClause :: "(string \<times> 'a) list \<Rightarrow> string \<Rightarrow> string list" where
  "resolveClause registry queryClause =
    (if SliceSeparator \<notin> set queryClause
     then filter (\<lambda>fieldName. startsWith fieldName queryClause) (map fst registry)
     else (case lookup registry queryClause of Some f \<Rightarrow> [queryClause] | None \<Rightarrow> []))"

definition badQuery :: "string \<Rightarrow> string \<Rightarrow> string \<Rightarrow> error" where
  "badQuery propertyName queryString queryClause =
    Error (''Bad store query '' @ propertyName @ '': '' @ queryString
           @ ''. Could not resolve '' @ queryClause)"

fun normalizeParts ::
  "(string \<times> 'a) list \<Rightarrow> string \<Rightarrow> string \<Rightarrow> string list \<Rightarrow> string list \<Rightarrow> error + string list"
where
  "normalizeParts registry propertyName queryString acc [] = Inr acc"
| "normalizeParts registry propertyName queryString acc (queryPart # rest) =
    (let queryClause = trim queryPart;
         names = resolveClause registry queryClause
     in if names = [] then Inl (badQuery propertyName queryString queryClause)
        else normalizeParts registry propertyName queryString (acc @ names) rest)"

definition normalizeQuery :: "(string \<times> 'a) list \<Rightarrow> string \<Rightarrow> string \<Rightarrow> error + string list" where
  "normalizeQuery registry propertyName queryString =
    normalizeParts registry propertyName queryString [] (split QuerySeparator queryString)"


section \<open>Slice descriptors, actions and the instance\<close>

text \<open>
  A handler of \<open>actionReducers\<close> takes the slice state and a payload, a selector the slice
  state and the options; both are user code and may throw. \<open>createSelectors\<close> is \<open>None\<close>
  when the descriptor has no factory (\<open>typeof\<close> is not \<open>'function'\<close>); otherwise it holds
  the object that the factory returns. The factory's two arguments, the instance's own
  \<open>select\<close> and \<open>selectOne\<close>, are not passed on: the model covers the selectors that read
  from their slice and their options only.
\<close>

type_synonym handler = "jsval \<Rightarrow> jsval \<Rightarrow> error + jsval"

type_synonym selectorFn = "jsval \<Rightarrow> jsval \<Rightarrow> error + jsval"

record sliceDescriptor =
  sliceName :: string
  initialState :: jsval
  actionReducers :: "(string \<times> handler) list"
  createSelectors :: "(string \<times> selectorFn) list option"

text \<open>
  An action object: its reference, \<open>type\<close> and \<open>payload\<close>, \<open>meta\<close> when the property
  exists, and whether it has the property \<open>error: true\<close>.
\<close>

record action =
  a_ref :: nat
  a_type :: string
  a_payload :: jsval
  a_meta :: "jsval option"
  a_error :: bool

definition action_val :: "action \<Rightarrow> jsval" where
  "action_val a =
    VObj (a_ref a) [ObjectProto]
      ([(''type'', VStr (a_type a)), (''payload'', a_payload a)]
       @ (case a_meta a of Some m \<Rightarrow> [(''meta'', m)] | None \<Rightarrow> [])
       @ (if a_error a then [(''error'', VBool True)] else []))"

text \<open>
  A registered selector is the closure of \<open>_createSelectors\<close>: the slice name and the
  function \<open>allSelectors[sliceSelectorName]\<close> it closes over, and its property \<open>prevState\<close>
  (\<open>undefined\<close> until the first call).
\<close>

record selector =
  s_sliceName :: string
  s_body :: selectorFn
  prevState :: jsval

text \<open>
  The instance: \<open>_selectors\<close>, \<open>_reducers\<close> (each reducer is the closure of
  \<open>_createReducer\<close> over its descriptor), \<open>_actionCreators\<close> (each bound action is the closure
  of \<open>_createBoundAction\<close> over its type), the current state of \<open>_store\<close> and the next fresh
  object reference.
\<close>

record strictRedux =
  selectors :: "(string \<times> selector) list"
  reducers :: "(string \<times> sliceDescriptor) list"
  actionCreators :: "(string \<times> string) list"
  currentState :: jsval
  nextRef :: nat

section \<open>Bound actions\<close>

text \<open>
  \<open>_createBoundAction(type)(payload, meta)\<close>; \<open>storeDispatch\<close> is \<open>this._store.dispatch\<close> and
  \<open>r\<close> the reference of the new action object.
\<close>

definition createBoundAction :: "(action \<Rightarrow> 'r) \<Rightarrow> string \<Rightarrow> nat \<Rightarrow> jsval \<Rightarrow> jsval \<Rightarrow> 'r" where
  "createBoundAction storeDispatch type r payload meta =
    (let action = \<lparr>a_ref = r, a_type = type, a_payload = payload, a_meta = None, a_error = False\<rparr>;
         action = (if truthy meta then action\<lparr>a_meta := Some meta\<rparr> else action);
         action = (if truthy payload \<and> (instanceofError payload \<or> prototypeInstanceofError payload)
                   then action\<lparr>a_error := True\<rparr> else action)
     in storeDispatch action)"

section \<open>Slice reducers\<close>

text \<open>
  \<open>action.type.split(SliceSeparator)[1]\<close> used as a property key: a missing second segment
  is \<open>undefined\<close>, which names the property \<open>'undefined'\<close>.
\<close>

definition sliceActionTypeOf :: "string \<Rightarrow> string" where
  "sliceActionTypeOf t =
    (case split SliceSeparator t of p # q # rest \<Rightarrow> q | _ \<Rightarrow> ''undefined'')"

text \<open>
  The call \<open>sliceDescriptor.actionReducers[k](v, w)\<close> for a key \<open>k\<close> that the descriptor
  does not have and \<open>Object.prototype\<close> has: the inherited member runs with the handler
  table, a plain object, as \<open>this\<close>. \<open>Object(v)\<close> is \<open>v\<close> or its wrapper; \<open>valueOf\<close> returns
  the handler table itself, whose properties are the handlers; \<open>hasOwnProperty\<close> and
  \<open>propertyIsEnumerable\<close> test the key that \<open>v\<close> converts to; the handler table is the
  prototype of no state; \<open>__defineGetter__\<close> and \<open>__defineSetter__\<close> refuse a second argument
  that is not callable, and with a callable one they would add an accessor to the handler
  table, which the model does not follow; \<open>__lookupGetter__\<close> and \<open>__lookupSetter__\<close> find
  an accessor for \<open>__proto__\<close> only; the value of \<open>__proto__\<close> is not a function. The reducer
  spreads what the call returns and keeps no reference to it, so an object made here
  carries the reference 0.
\<close>

definition callObjectPrototype :: "string \<Rightarrow> sliceDescriptor \<Rightarrow> jsval \<Rightarrow> jsval \<Rightarrow> error + jsval" where
  "callObjectPrototype k d v w =
    (if k = ''constructor'' then
       Inr (if is_object v then v
            else (case v of
                    VUndef \<Rightarrow> VObj 0 [ObjectProto] []
                  | VNull \<Rightarrow> VObj 0 [ObjectProto] []
                  | _ \<Rightarrow> VObj 0 (proto_chain v) (own_props v)))
     else if k = ''toString'' then Inr (VStr ''[object Object]'')
     else if k = ''toLocaleString'' then
       (case map_of (actionReducers d) ''toString'' of
          Some h \<Rightarrow> h VUndef VUndef
        | None \<Rightarrow> Inr (VStr ''[object Object]''))
     else if k = ''valueOf'' then
       Inr (VObj 0 [ObjectProto]
              (map (\<lambda>kh. (fst kh, VFunction (sliceName d @ ''.actionReducers.'' @ fst kh)))
                 (actionReducers d)))
     else if k = ''hasOwnProperty'' \<or> k = ''propertyIsEnumerable'' then
       (case js_toString v of
          Inl e \<Rightarrow> Inl e
        | Inr key \<Rightarrow> Inr (VBool (key \<in> fst ` set (actionReducers d))))
     else if k = ''isPrototypeOf'' then Inr (VBool False)
     else if k = ''__defineGetter__'' \<or> k = ''__defineSetter__'' then
       (if is_callable w then Inl (Unmodelled (''an accessor defined by '' @ k))
        else Inl (TypeError (''Object.prototype.'' @ k @ '': Expecting function'')))
     else if k = ''__lookupGetter__'' \<or> k = ''__lookupSetter__'' then
       (case js_toString v of
          Inl e \<Rightarrow> Inl e
        | Inr key \<Rightarrow>
            Inr (if key = ''__proto__'' \<and> map_of (actionReducers d) key = None
                 then VFunction (''Object.prototype.__proto__ '' @ k) else VUndef))
     else Inl (TypeError (''sliceDescriptor.actionReducers.'' @ k @ '' is not a function'')))"

text \<open>
  \<open>_createReducer(sliceDescriptor)(state, action)\<close> of src/StrictRedux.js; \<open>n\<close> is the next
  fresh reference, returned updated.
\<close>

definition createReducer ::
  "strictRedux \<Rightarrow> sliceDescriptor \<Rightarrow> jsval \<Rightarrow> action \<Rightarrow> nat \<Rightarrow> error + jsval \<times> nat"
where
  "createReducer self d state0 action n =
    (let state = (case state0 of VUndef \<Rightarrow> initialState d | _ \<Rightarrow> state0) in
     if a_type action \<notin> set (map fst (actionCreators self)) \<and> \<not> startsWith (a_type action) ''@@''
     then Inl (Error (''Unknown action type '' @ a_type action))
     else
       let sliceActionType = sliceActionTypeOf (a_type action) in
       if startsWith (a_type action) (sliceName d) then
         (case lookup (actionReducers d) sliceActionType of
            Some (Registered h) \<Rightarrow>
              (case h state (a_payload action) of
                 Inl e \<Rightarrow> Inl e
               | Inr partial \<Rightarrow>
                   Inr (VObj n [ObjectProto] (assign (own_props state) (own_props partial)), Suc n))
          | Some (Inherited k) \<Rightarrow>
              (case callObjectPrototype k d state (a_payload action) of
                 Inl e \<Rightarrow> Inl e
               | Inr partial \<Rightarrow>
                   Inr (VObj n [ObjectProto] (assign (own_props state) (own_props partial)), Suc n))
          | None \<Rightarrow> Inr (state, n))
       else Inr (state, n))"

text \<open>
  The same function in the compiled build of the library (the second unnamed source file,
  lines 250 to 267): it differs from the source in the second argument of the handler.
\<close>

definition createReducer_lib ::
  "strictRedux \<Rightarrow> sliceDescriptor \<Rightarrow> jsval \<Rightarrow> action \<Rightarrow> nat \<Rightarrow> error + jsval \<times> nat"
where
  "createReducer_lib self d state0 action n =
    (let state = (case state0 of VUndef \<Rightarrow> initialState d | _ \<Rightarrow> state0) in
     if a_type action \<notin> set (map fst (actionCreators self)) \<and> \<not> startsWith (a_type action) ''@@''
     then Inl (Error (''Unknown action type '' @ a_type action))
     else
       let sliceActionType = sliceActionTypeOf (a_type action) in
       if startsWith (a_type action) (sliceName d) then
         (case lookup (actionReducers d) sliceActionType of
            Some (Registered h) \<Rightarrow>
              (case h state (action_val action) of
                 Inl e \<Rightarrow> Inl e
               | Inr partial \<Rightarrow>
                   Inr (VObj n [ObjectProto] (assign (own_props state) (own_props partial)), Suc n))
          | Some (Inherited k) \<Rightarrow>
              (case callObjectPrototype k d state (action_val action) of
                 Inl e \<Rightarrow> Inl e
               | Inr partial \<Rightarrow>
                   Inr (VObj n [ObjectProto] (assign (own_props state) (own_props partial)), Suc n))
          | None \<Rightarrow> Inr (state, n))
       else Inr (state, n))"

section \<open>The underlying store\<close>

text \<open>
  The store is the external library redux (\<open>createStore\<close>, \<open>combineReducers\<close>,
  \<open>dispatch\<close>), which the repository calls and does not contain; the next four definitions
  give what the library does with the reducers of this repository. The instance is built
  without middleware and without the development tools, and the calls by which
  \<open>combineReducers\<close> probes the reducers, whose results it drops, are left out.
\<close>

text \<open>
  Modelled from the spec: the loop of the combined reducer of \<open>combineReducers\<close>, which is
  not in the repository. It calls the reducer of every slice, in the order of the keys of
  \<open>_reducers\<close>, on \<open>state[key]\<close>, refuses \<open>undefined\<close> from a reducer, and records whether
  some slice returned another reference than it was given.
\<close>

fun combineLoop ::
  "strictRedux \<Rightarrow> (string \<times> sliceDescriptor) list \<Rightarrow> jsval \<Rightarrow> action \<Rightarrow> (string \<times> jsval) list
    \<Rightarrow> bool \<Rightarrow> nat \<Rightarrow> error + (string \<times> jsval) list \<times> bool \<times> nat"
where
  "combineLoop self [] state action nextState hasChanged n = Inr (nextState, hasChanged, n)"
| "combineLoop self (kd # rest) state action nextState hasChanged n =
    (let previousStateForKey = get_field state (fst kd) in
     case createReducer self (snd kd) previousStateForKey action n of
       Inl e \<Rightarrow> Inl e
     | Inr (nextStateForKey, n') \<Rightarrow>
         (case nextStateForKey of
            VUndef \<Rightarrow> Inl (Error (''Reducer '' @ fst kd @ '' returned undefined''))
          | _ \<Rightarrow>
              combineLoop self rest state action (put (fst kd) nextStateForKey nextState)
                (hasChanged \<or> \<not> strict_eq nextStateForKey previousStateForKey) n'))"

text \<open>
  Modelled from the spec: the combined reducer of \<open>combineReducers\<close>, which is not in the
  repository. Its state defaults to \<open>{}\<close>, and it returns the state object it was given
  unless some slice changed.
\<close>

definition combination :: "strictRedux \<Rightarrow> jsval \<Rightarrow> action \<Rightarrow> nat \<Rightarrow> error + jsval \<times> nat" where
  "combination self state0 action n =
    (let sn = (case state0 of VUndef \<Rightarrow> (VObj n [ObjectProto] [], Suc n) | _ \<Rightarrow> (state0, n)) in
     case combineLoop self (reducers self) (fst sn) action [] False (Suc (snd sn)) of
       Inl e \<Rightarrow> Inl e
     | Inr (nextState, hasChanged, n') \<Rightarrow>
         Inr (if hasChanged then VObj (snd sn) [ObjectProto] nextState else fst sn, n'))"

text \<open>
  Modelled from the spec: \<open>dispatch\<close> of the store, which is not in the repository. It
  replaces the current state by the result of the combined reducer and returns the action;
  an exception of a reducer leaves the current state as it was.
\<close>

definition dispatch :: "strictRedux \<Rightarrow> action \<Rightarrow> (error + action) \<times> strictRedux" where
  "dispatch self action =
    (case combination self (currentState self) action (nextRef self) of
       Inl e \<Rightarrow> (Inl e, self)
     | Inr (s, n) \<Rightarrow> (Inr action, self\<lparr>currentState := s, nextRef := n\<rparr>))"

text \<open>
  Modelled from the spec: \<open>createStore\<close>, which is not in the repository. It dispatches
  one action of type \<open>@@redux/INIT\<close> on the state \<open>undefined\<close>.
\<close>

definition createStore :: "strictRedux \<Rightarrow> error + strictRedux" where
  "createStore self =
    (case dispatch (self\<lparr>currentState := VUndef, nextRef := Suc (nextRef self)\<rparr>)
            \<lparr>a_ref = nextRef self, a_type = ''@@redux/INIT'', a_payload = VUndef,
             a_meta = None, a_error = False\<rparr> of
       (Inl e, self') \<Rightarrow> Inl e
     | (Inr a, self') \<Rightarrow> Inr self')"

text \<open>A bound action of the instance: the action object is allocated, then dispatched.\<close>

definition callBoundAction ::
  "strictRedux \<Rightarrow> string \<Rightarrow> jsval \<Rightarrow> jsval \<Rightarrow> (error + action) \<times> strictRedux"
where
  "callBoundAction self type payload meta =
    createBoundAction (dispatch (self\<lparr>nextRef := Suc (nextRef self)\<rparr>)) type (nextRef self)
      payload meta"


section \<open>Selectors\<close>

text \<open>\<open>createDefaultSelectors(sliceDescriptor)\<close>: one getter for each key of the initial state.\<close>

definition createDefaultSelectors :: "sliceDescriptor \<Rightarrow> error + (string \<times> selectorFn) list" where
  "createDefaultSelectors d =
    (case object_keys (initialState d) of
       Inl e \<Rightarrow> Inl e
     | Inr ks \<Rightarrow>
         Inr (foldl (\<lambda>acc stateProperty.
                put stateProperty (\<lambda>stateSlice options. read_prop stateSlice stateProperty) acc)
              [] ks))"

definition fullNameOf :: "string \<Rightarrow> string \<Rightarrow> string" where
  "fullNameOf slice name = slice @ [SliceSeparator] @ name"

text \<open>\<open>_createSelectors(sliceDescriptor)\<close>: the registration of the wrapped selectors.\<close>

definition createSelectors' :: "strictRedux \<Rightarrow> sliceDescriptor \<Rightarrow> error + strictRedux" where
  "createSelectors' self d =
    (case createDefaultSelectors d of
       Inl e \<Rightarrow> Inl e
     | Inr defaultSelectors \<Rightarrow>
         (let allSelectors =
                (case createSelectors d of
                   Some custom \<Rightarrow> assign defaultSelectors custom
                 | None \<Rightarrow> defaultSelectors)
          in Inr (self\<lparr>selectors :=
                   foldl (\<lambda>registry kf.
                      put (fullNameOf (sliceName d) (fst kf))
                        \<lparr>s_sliceName = sliceName d, s_body = snd kf, prevState = VUndef\<rparr> registry)
                    (selectors self) allSelectors\<rparr>)))"

text \<open>
  The wrapped selector registered under \<open>fullName\<close>, called with \<open>(options, maybeState)\<close>:
  the result of the underlying selector (\<open>Inl\<close> when something throws), the slice state it
  was given, and the instance afterwards.
\<close>

definition callSelector ::
  "strictRedux \<Rightarrow> string \<Rightarrow> jsval \<Rightarrow> jsval \<Rightarrow> (error + jsval) \<times> jsval \<times> strictRedux"
where
  "callSelector self fullName options maybeState =
    (case map_of (selectors self) fullName of
       None \<Rightarrow> (Inl (TypeError ''Cannot read property prevState of undefined''), VUndef, self)
     | Some f \<Rightarrow>
         (let state = (if truthy maybeState then maybeState else currentState self) in
          case read_prop state (s_sliceName f) of
            Inl e \<Rightarrow> (Inl e, VUndef, self)
          | Inr slice \<Rightarrow>
              (let same = strict_eq (prevState f) state;
                   stateSlice = (if same then slice
                                 else VObj (nextRef self) [ObjectProto] (own_props slice));
                   self' = self\<lparr>selectors := put fullName (f\<lparr>prevState := state\<rparr>) (selectors self),
                                nextRef := (if same then nextRef self else Suc (nextRef self))\<rparr>
               in (s_body f stateSlice options, stateSlice, self'))))"

section \<open>Construction\<close>

definition registerStateSlice :: "strictRedux \<Rightarrow> sliceDescriptor \<Rightarrow> error + strictRedux" where
  "registerStateSlice self d =
    (let self1 = self\<lparr>actionCreators :=
                   foldl (\<lambda>registry actionName.
                      put (fullNameOf (sliceName d) actionName)
                          (fullNameOf (sliceName d) actionName) registry)
                    (actionCreators self) (map fst (actionReducers d))\<rparr>;
         self2 = self1\<lparr>reducers := put (sliceName d) d (reducers self1)\<rparr>
     in createSelectors' self2 d)"

fun registerAll :: "strictRedux \<Rightarrow> sliceDescriptor list \<Rightarrow> error + strictRedux" where
  "registerAll self [] = Inr self"
| "registerAll self (slice # slices) =
    (case registerStateSlice self slice of
       Inl e \<Rightarrow> Inl e
     | Inr self' \<Rightarrow> registerAll self' slices)"

fun ref_of :: "jsval \<Rightarrow> nat" where
  "ref_of (VObj r c ps) = r"
| "ref_of v = 0"

text \<open>
  \<open>new StrictRedux(slices)\<close>. The first fresh reference lies above the references of the
  initial state objects that the descriptors bring along.
\<close>

definition StrictRedux :: "sliceDescriptor list \<Rightarrow> error + strictRedux" where
  "StrictRedux slices =
    (case registerAll
            \<lparr>selectors = [], reducers = [], actionCreators = [], currentState = VUndef,
             nextRef = Suc (foldr max (map (\<lambda>d. ref_of (initialState d)) slices) 0)\<rparr> slices of
       Inl e \<Rightarrow> Inl e
     | Inr self \<Rightarrow> createStore self)"

section \<open>The public operations\<close>

definition getSelector :: "strictRedux \<Rightarrow> string \<Rightarrow> error + selector member" where
  "getSelector self selectorName =
    (case lookup (selectors self) selectorName of
       Some f \<Rightarrow> Inr f
     | None \<Rightarrow> Inl (Error (''Selector '' @ selectorName @ '' not found'')))"

definition getSelectors ::
  "strictRedux \<Rightarrow> string \<Rightarrow> error + (string \<times> selector member option) list"
where
  "getSelectors self queryString =
    (case normalizeQuery (selectors self) ''_selectors'' queryString of
       Inl e \<Rightarrow> Inl e
     | Inr names \<Rightarrow>
         Inr (foldl (\<lambda>acc selectorName. put selectorName (lookup (selectors self) selectorName) acc)
              [] names))"

text \<open>
  The call \<open>f(options, state)\<close> of a value \<open>f\<close> read from \<open>_selectors\<close> under \<open>name\<close>.
\<close>

definition invokeSelector ::
  "strictRedux \<Rightarrow> string \<Rightarrow> selector member option \<Rightarrow> jsval \<Rightarrow> jsval \<Rightarrow> (error + jsval) \<times> strictRedux"
where
  "invokeSelector self name f options state =
    (case f of
       Some (Registered s) \<Rightarrow>
         (case callSelector self name options state of (res, slice, self') \<Rightarrow> (res, self'))
     | Some (Inherited k) \<Rightarrow> (Inl (InheritedCall k), self)
     | None \<Rightarrow> (Inl (TypeError (name @ '' is not a function'')), self))"

definition selectOne ::
  "strictRedux \<Rightarrow> string \<Rightarrow> jsval \<Rightarrow> jsval \<Rightarrow> (error + jsval) \<times> strictRedux"
where
  "selectOne self selectorName options state =
    (case getSelector self selectorName of
       Inl e \<Rightarrow> (Inl e, self)
     | Inr f \<Rightarrow> invokeSelector self selectorName (Some f) options state)"

fun selectLoop ::
  "strictRedux \<Rightarrow> (string \<times> selector member option) list \<Rightarrow> jsval \<Rightarrow> jsval
    \<Rightarrow> (string \<times> jsval) list \<Rightarrow> (error + (string \<times> jsval) list) \<times> strictRedux"
where
  "selectLoop self [] options state acc = (Inr acc, self)"
| "selectLoop self (nf # rest) options state acc =
    (case invokeSelector self (fst nf) (snd nf) options state of
       (Inl e, self') \<Rightarrow> (Inl e, self')
     | (Inr v, self') \<Rightarrow> selectLoop self' rest options state (put (fst nf) v acc))"

definition select ::
  "strictRedux \<Rightarrow> string \<Rightarrow> jsval \<Rightarrow> jsval \<Rightarrow> (error + (string \<times> jsval) list) \<times> strictRedux"
where
  "select self queryString options state =
    (case getSelectors self queryString of
       Inl e \<Rightarrow> (Inl e, self)
     | Inr sels \<Rightarrow> selectLoop self sels options state [])"

definition getAction :: "strictRedux \<Rightarrow> string \<Rightarrow> error + string member" where
  "getAction self actionName =
    (case lookup (actionCreators self) actionName of
       Some f \<Rightarrow> Inr f
     | None \<Rightarrow> Inl (Error (''Action '' @ actionName @ '' not found'')))"

definition getActions ::
  "strictRedux \<Rightarrow> string \<Rightarrow> error + (string \<times> string member option) list"
where
  "getActions self queryString =
    (case normalizeQuery (actionCreators self) ''_actionCreators'' queryString of
       Inl e \<Rightarrow> Inl e
     | Inr names \<Rightarrow>
         Inr (foldl (\<lambda>acc name. put name (lookup (actionCreators self) name) acc) [] names))"

definition createMapStateToProps ::
  "strictRedux \<Rightarrow> string \<Rightarrow> jsval \<Rightarrow> jsval \<Rightarrow> (error + (string \<times> jsval) list) \<times> strictRedux"
where
  "createMapStateToProps self queryString state ownProps = select self queryString ownProps state"

definition createMapDispatchToProps ::
  "strictRedux \<Rightarrow> string \<Rightarrow> error + (string \<times> string member option) list"
where
  "createMapDispatchToProps self queryString = getActions self queryString"

text \<open>The call \<open>f(payload, meta)\<close> of a value \<open>f\<close> read from \<open>_actionCreators\<close>.\<close>

definition invokeAction ::
  "strictRedux \<Rightarrow> string member \<Rightarrow> jsval \<Rightarrow> jsval \<Rightarrow> (error + action) \<times> strictRedux"
where
  "invokeAction self f payload meta =
    (case f of
       Registered type \<Rightarrow> callBoundAction self type payload meta
     | Inherited k \<Rightarrow> (Inl (InheritedCall k), self))"

definition strictDispatch :: "strictRedux \<Rightarrow> action \<Rightarrow> (error + action) \<times> strictRedux" where
  "strictDispatch self action =
    (case getAction self (a_type action) of
       Inl e \<Rightarrow> (Inl e, self)
     | Inr f \<Rightarrow>
         invokeAction self f (a_payload action)
           (case a_meta action of Some m \<Rightarrow> m | None \<Rightarrow> VUndef))"

text \<open>\<open>getActionTypes(queryString)\<close>; \<open>None\<close> is a call without argument.\<close>

definition getActionTypes :: "strictRedux \<Rightarrow> string option \<Rightarrow> error + (string \<times> string) list" where
  "getActionTypes self queryString =
    (case queryString of
       None \<Rightarrow> Inr (foldl (\<lambda>acc name. put name name acc) [] (map fst (actionCreators self)))
     | Some q \<Rightarrow>
         if q = [] then Inr (foldl (\<lambda>acc name. put name name acc) [] (map fst (actionCreators self)))
         else (case normalizeQuery (actionCreators self) ''_actionCreators'' q of
                 Inl e \<Rightarrow> Inl e
               | Inr names \<Rightarrow> Inr (foldl (\<lambda>acc name. put name name acc) [] names)))"

text \<open>
  A client's call of a public operation, or of a function that one of them returned, and
  the instance it leaves behind.
\<close>

datatype call =
    GetSelector string
  | GetSelectors string
  | Select string jsval jsval
  | SelectOne string jsval jsval
  | GetAction string
  | GetActions string
  | StrictDispatch action
  | GetActionTypes "string option"
  | MapStateToProps string jsval jsval
  | MapDispatchToProps string
  | CallSelector string jsval jsval
  | CallAction string jsval jsval

fun perform :: "strictRedux \<Rightarrow> call \<Rightarrow> strictRedux" where
  "perform self (GetSelector n) = (case getSelector self n of r \<Rightarrow> self)"
| "perform self (GetSelectors q) = (case getSelectors self q of r \<Rightarrow> self)"
| "perform self (Select q options state) = snd (select self q options state)"
| "perform self (SelectOne n options state) = snd (selectOne self n options state)"
| "perform self (GetAction n) = (case getAction self n of r \<Rightarrow> self)"
| "perform self (GetActions q) = (case getActions self q of r \<Rightarrow> self)"
| "perform self (StrictDispatch a) = snd (strictDispatch self a)"
| "perform self (GetActionTypes q) = (case getActionTypes self q of r \<Rightarrow> self)"
| "perform self (MapStateToProps q state ownProps) = snd (createMapStateToProps self q state ownProps)"
| "perform self (MapDispatchToProps q) = (case createMapDispatchToProps self q of r \<Rightarrow> self)"
| "perform self (CallSelector n options state) =
    snd (invokeSelector self n (lookup (selectors self) n) options state)"
| "perform self (CallAction n payload meta) =
    (case lookup (actionCreators self) n of
       Some f \<Rightarrow> snd (invokeAction self f payload meta)
     | None \<Rightarrow> self)"

text \<open>
  What the instance binds: the names of the selectors with their closures, the memo left
  out; the names of the bound actions with their types; the slice names with their reducers.
\<close>

definition bindings ::
  "strictRedux \<Rightarrow> (string \<times> string \<times> selectorFn) list \<times> (string \<times> string) list
     \<times> (string \<times> sliceDescriptor) list" where
  "bindings self =
    (map (\<lambda>nf. (fst nf, s_sliceName (snd nf), s_body (snd nf))) (selectors self),
     actionCreators self, reducers self)"

section \<open>Scenarios\<close>

text \<open>
  The handlers of the scenarios use \<open>+\<close>: addition on two integers, concatenation when an
  operand is a string or a plain object.
\<close>

fun is_number :: "jsval \<Rightarrow> bool" where
  "is_number (VNum n) = True"
| "is_number v = False"

fun is_string :: "jsval \<Rightarrow> bool" where
  "is_string (VStr s) = True"
| "is_string v = False"

fun js_add :: "jsval \<Rightarrow> jsval \<Rightarrow> error + jsval" where
  "js_add (VNum a) (VNum b) = Inr (VNum (a + b))"
| "js_add a b =
    (if \<not> is_object a \<and> \<not> is_object b \<and> \<not> is_string a \<and> \<not> is_string b
     then Inl (Unmodelled ''addition outside the integers'')
     else (case js_toString a of
             Inl e \<Rightarrow> Inl e
           | Inr x \<Rightarrow> (case js_toString b of Inl e \<Rightarrow> Inl e | Inr y \<Rightarrow> Inr (VStr (x @ y)))))"

text \<open>\<open>(state, payload) => ({[k]: state[k] + payload})\<close>\<close>

definition adder :: "string \<Rightarrow> handler" where
  "adder k state payload =
    (case read_prop state k of
       Inl e \<Rightarrow> Inl e
     | Inr v \<Rightarrow>
         (case js_add v payload of
            Inl e \<Rightarrow> Inl e
          | Inr w \<Rightarrow> Inr (VObj 0 [ObjectProto] [(k, w)])))"

text \<open>\<open>(state, payload) => ({[k]: payload})\<close>\<close>

definition setter :: "string \<Rightarrow> handler" where
  "setter k state payload = Inr (VObj 0 [ObjectProto] [(k, payload)])"

definition counter :: sliceDescriptor where
  "counter =
    \<lparr>sliceName = ''counter'', initialState = VObj 1 [ObjectProto] [(''value'', VNum 0)],
     actionReducers = [(''increment'', adder ''value'')], createSelectors = None\<rparr>"

definition sliceA :: sliceDescriptor where
  "sliceA =
    \<lparr>sliceName = ''a'', initialState = VObj 1 [ObjectProto] [(''x'', VNum 0)],
     actionReducers = [(''inc'', adder ''x'')], createSelectors = None\<rparr>"

definition sliceAB :: sliceDescriptor where
  "sliceAB =
    \<lparr>sliceName = ''ab'', initialState = VObj 2 [ObjectProto] [(''y'', VNum 0)],
     actionReducers = [(''inc'', adder ''y'')], createSelectors = None\<rparr>"

definition sliceT :: sliceDescriptor where
  "sliceT =
    \<lparr>sliceName = ''t'', initialState = VObj 1 [ObjectProto] [(''x'', VNum 0)],
     actionReducers = [(''set_x'', setter ''x'')], createSelectors = None\<rparr>"




text \<open>The instance that \<open>new StrictRedux([counter])\<close> builds.\<close>

definition counterStore :: strictRedux where
  "counterStore =
    \<lparr>selectors =
       [(''counter_value'',
         \<lparr>s_sliceName = ''counter'',
          s_body = (\<lambda>stateSlice options. read_prop stateSlice ''value''),
          prevState = VUndef\<rparr>)],
     reducers = [(''counter'', counter)],
     actionCreators = [(''counter_increment'', ''counter_increment'')],
     currentState = VObj 4 [ObjectProto] [(''counter'', VObj 1 [ObjectProto] [(''value'', VNum 0)])],
     nextRef = 5\<rparr>"


text \<open>The instances that \<open>new StrictRedux([sliceA, sliceAB])\<close> and \<open>new StrictRedux([sliceT])\<close> build.\<close>

definition pairStore :: strictRedux where
  "pairStore =
    \<lparr>selectors =
       [(''a_x'',
         \<lparr>s_sliceName = ''a'', s_body = (\<lambda>stateSlice options. read_prop stateSlice ''x''),
          prevState = VUndef\<rparr>),
        (''ab_y'',
         \<lparr>s_sliceName = ''ab'', s_body = (\<lambda>stateSlice options. read_prop stateSlice ''y''),
          prevState = VUndef\<rparr>)],
     reducers = [(''a'', sliceA), (''ab'', sliceAB)],
     actionCreators = [(''a_inc'', ''a_inc''), (''ab_inc'', ''ab_inc'')],
     currentState =
       VObj 5 [ObjectProto]
         [(''a'', VObj 1 [ObjectProto] [(''x'', VNum 0)]),
          (''ab'', VObj 2 [ObjectProto] [(''y'', VNum 0)])],
     nextRef = 6\<rparr>"

definition tStore :: strictRedux where
  "tStore =
    \<lparr>selectors =
       [(''t_x'',
         \<lparr>s_sliceName = ''t'', s_body = (\<lambda>stateSlice options. read_prop stateSlice ''x''),
          prevState = VUndef\<rparr>)],
     reducers = [(''t'', sliceT)],
     actionCreators = [(''t_set_x'', ''t_set_x'')],
     currentState = VObj 4 [ObjectProto] [(''t'', VObj 1 [ObjectProto] [(''x'', VNum 0)])],
     nextRef = 5\<rparr>"

section \<open>Auxiliary facts\<close>

lemmas scenario_defs =
  StrictRedux_def registerStateSlice_def createSelectors'_def createDefaultSelectors_def
  fullNameOf_def SliceSeparator_def QuerySeparator_def createStore_def dispatch_def
  combination_def createReducer_def startsWith_def sliceActionTypeOf_def lookup_def
  object_prototype_keys_def callBoundAction_def createBoundAction_def instanceofError_def
  prototypeInstanceofError_def adder_def setter_def assign_def selectOne_def getSelector_def
  invokeSelector_def callSelector_def strictDispatch_def getAction_def invokeAction_def
  Let_def

subsection \<open>Strings\<close>

lemma split_concat: "concat (map (\<lambda>p. p @ [sep]) (split sep s)) = s @ [sep]"
  by (induction s) (auto split: list.splits)

lemma split_no_sep: "p \<in> set (split sep s) \<Longrightarrow> sep \<notin> set p"
  by (induction s arbitrary: p) (auto split: list.splits if_splits)

lemma trim_decomp:
  "p = takeWhile is_space p @ trim p @ rev (takeWhile is_space (rev (dropWhile is_space p)))"
proof -
  let ?x = "dropWhile is_space p"
  have "rev ?x = takeWhile is_space (rev ?x) @ dropWhile is_space (rev ?x)"
    by simp
  then have "rev (rev ?x) = rev (takeWhile is_space (rev ?x) @ dropWhile is_space (rev ?x))"
    by (rule arg_cong)
  then have "rev (rev ?x) = rev (dropWhile is_space (rev ?x)) @ rev (takeWhile is_space (rev ?x))"
    by (simp only: rev_append)
  then have "?x = trim p @ rev (takeWhile is_space (rev ?x))"
    by (simp only: trim_def rev_rev_ident)
  moreover have "p = takeWhile is_space p @ ?x"
    by simp
  ultimately show ?thesis
    by metis
qed

lemma last_dropWhile_nonempty: "dropWhile P xs \<noteq> [] \<Longrightarrow> last (dropWhile P xs) = last xs"
  by (metis last_appendR takeWhile_dropWhile_id)

lemma trim_ends:
  assumes "trim p \<noteq> []"
  shows "\<not> is_space (hd (trim p)) \<and> \<not> is_space (last (trim p))"
proof -
  let ?x = "dropWhile is_space p"
  let ?y = "dropWhile is_space (rev ?x)"
  from assms have y: "?y \<noteq> []" by (simp add: trim_def)
  then have x: "?x \<noteq> []" by (cases "?x = []") simp_all
  have "last (trim p) = hd ?y" using y by (simp add: trim_def last_rev)
  moreover have "\<not> is_space (hd ?y)" using y by (rule hd_dropWhile)
  moreover have "hd (trim p) = last ?y" using y by (simp add: trim_def hd_rev)
  moreover have "last ?y = last (rev ?x)" using y by (rule last_dropWhile_nonempty)
  moreover have "last (rev ?x) = hd ?x" using x by (simp add: last_rev)
  moreover have "\<not> is_space (hd ?x)" using x by (rule hd_dropWhile)
  ultimately show ?thesis by simp
qed

lemma trim_spec:
  "\<exists>l r. p = l @ trim p @ r \<and> (\<forall>c\<in>set l. is_space c) \<and> (\<forall>c\<in>set r. is_space c)
      \<and> (trim p \<noteq> [] \<longrightarrow> \<not> is_space (hd (trim p)) \<and> \<not> is_space (last (trim p)))"
proof (intro exI conjI)
  show "p = takeWhile is_space p @ trim p @ rev (takeWhile is_space (rev (dropWhile is_space p)))"
    by (rule trim_decomp)
  show "\<forall>c\<in>set (takeWhile is_space p). is_space c"
    by (auto dest: set_takeWhileD)
  show "\<forall>c\<in>set (rev (takeWhile is_space (rev (dropWhile is_space p)))). is_space c"
    by (auto dest: set_takeWhileD)
  show "trim p \<noteq> [] \<longrightarrow> \<not> is_space (hd (trim p)) \<and> \<not> is_space (last (trim p))"
    using trim_ends by blast
qed

lemma startsWith_iff: "startsWith n c \<longleftrightarrow> (\<exists>rest. n = c @ rest)"
  unfolding startsWith_def
  by (metis append_eq_conv_conj append_take_drop_id)

subsection \<open>Property lists\<close>

lemma map_of_put: "map_of (put k v ps) = (map_of ps)(k \<mapsto> v)"
  by (induction ps) auto

lemma keys_put: "fst ` set (put k v ps) = insert k (fst ` set ps)"
  by (induction ps) auto

lemma keys_fold_put:
  "fst ` set (foldl (\<lambda>acc n. put n (g n) acc) acc ns) = fst ` set acc \<union> set ns"
  by (induction ns arbitrary: acc) (auto simp: keys_put)

lemma map_of_fold_put:
  "map_of (foldl (\<lambda>acc n. put n (g n) acc) acc ns) n =
     (if n \<in> set ns then Some (g n) else map_of acc n)"
  by (induction ns arbitrary: acc) (auto simp: map_of_put)

subsection \<open>The query router\<close>

lemma normalizeParts_eq:
  "normalizeParts registry pn q acc parts =
    (case find (\<lambda>c. resolveClause registry c = []) (map trim parts) of
       Some c \<Rightarrow> Inl (badQuery pn q c)
     | None \<Rightarrow> Inr (acc @ concat (map (resolveClause registry) (map trim parts))))"
  by (induction parts arbitrary: acc) (auto simp: Let_def split: option.splits)

lemma normalizeQuery_eq:
  "normalizeQuery registry pn q =
    (case find (\<lambda>c. resolveClause registry c = []) (map trim (split QuerySeparator q)) of
       Some c \<Rightarrow> Inl (badQuery pn q c)
     | None \<Rightarrow> Inr (concat (map (resolveClause registry) (map trim (split QuerySeparator q)))))"
  by (simp add: normalizeQuery_def normalizeParts_eq split: option.splits)


lemma resolveClause_full:
  "SliceSeparator \<in> set c \<Longrightarrow> c \<in> fst ` set registry \<Longrightarrow> resolveClause registry c = [c]"
  by (auto simp: resolveClause_def lookup_def map_of_eq_None_iff split: option.splits)

lemma resolveClause_prefix:
  "SliceSeparator \<notin> set c \<Longrightarrow>
     resolveClause registry c = filter (\<lambda>n. startsWith n c) (map fst registry)"
  by (simp add: resolveClause_def)

lemma getSelectors_names:
  assumes "normalizeQuery (selectors self) ''_selectors'' q = Inr names"
  shows "\<exists>sels. getSelectors self q = Inr sels \<and> fst ` set sels = set names
           \<and> (\<forall>n\<in>set names. map_of sels n = Some (lookup (selectors self) n))"
  using assms by (simp add: getSelectors_def keys_fold_put map_of_fold_put)

lemma getActions_names:
  assumes "normalizeQuery (actionCreators self) ''_actionCreators'' q = Inr names"
  shows "\<exists>acts. getActions self q = Inr acts \<and> fst ` set acts = set names
           \<and> (\<forall>n\<in>set names. map_of acts n = Some (lookup (actionCreators self) n))"
  using assms by (simp add: getActions_def keys_fold_put map_of_fold_put)

lemma selectLoop_keys:
  "fst (selectLoop self sels options state acc) = Inr vals \<Longrightarrow>
     fst ` set vals = fst ` set acc \<union> fst ` set sels"
proof (induction sels arbitrary: self acc)
  case Nil
  then show ?case by simp
next
  case (Cons nf rest)
  obtain res self' where inv: "invokeSelector self (fst nf) (snd nf) options state = (res, self')"
    by (cases "invokeSelector self (fst nf) (snd nf) options state")
  show ?case
  proof (cases res)
    case (Inl e)
    with Cons.prems inv show ?thesis by simp
  next
    case (Inr v)
    with Cons.prems inv
    have "fst (selectLoop self' rest options state (put (fst nf) v acc)) = Inr vals" by simp
    from Cons.IH[OF this] show ?thesis by (auto simp: keys_put)
  qed
qed






subsection \<open>Bound actions\<close>

lemma error_like_iff:
  "(truthy payload \<and> (instanceofError payload \<or> prototypeInstanceofError payload))
     = (is_object payload \<and> ErrorProto \<in> set (proto_chain payload))"
proof -
  have "ErrorProto \<in> set (tl c) \<Longrightarrow> ErrorProto \<in> set c" for c :: "proto list"
    by (cases c) auto
  then show ?thesis
    by (cases payload) (auto simp: instanceofError_def prototypeInstanceofError_def)
qed

subsection \<open>Selectors\<close>

lemma strict_eq_refl: "strict_eq v v"
  by (cases v) auto

lemma strict_eq_fresh: "ref_of v < n \<Longrightarrow> \<not> strict_eq (VObj n c ps) v"
  by (cases v) auto

lemma callSelector_registered:
  assumes reg: "map_of (selectors self) name = Some f"
    and st: "(if truthy maybeState then maybeState else currentState self) = state"
    and sl: "read_prop state (s_sliceName f) = Inr slice"
  shows "callSelector self name options maybeState =
    (s_body f (if strict_eq (prevState f) state then slice
               else VObj (nextRef self) [ObjectProto] (own_props slice)) options,
     (if strict_eq (prevState f) state then slice
      else VObj (nextRef self) [ObjectProto] (own_props slice)),
     self\<lparr>selectors := put name (f\<lparr>prevState := state\<rparr>) (selectors self),
          nextRef := (if strict_eq (prevState f) state then nextRef self
                      else Suc (nextRef self))\<rparr>)"
  unfolding callSelector_def st Let_def by (simp add: reg sl)

subsection \<open>Registration of selectors\<close>

lemma distinct_put: "distinct (map fst ps) \<Longrightarrow> distinct (map fst (put k v ps))"
proof (induction ps)
  case Nil
  then show ?case by simp
next
  case (Cons p ps)
  have "fst ` set (put k v ps) = insert k (fst ` set ps)" by (rule keys_put)
  with Cons show ?case by auto
qed

lemma fold_put_keys:
  "fst ` set (foldl (\<lambda>acc p. put (F p) (G p) acc) a b) = fst ` set a \<union> F ` set b"
  by (induction b arbitrary: a) (auto simp: keys_put)

lemma fold_put_distinct:
  "distinct (map fst a) \<Longrightarrow> distinct (map fst (foldl (\<lambda>acc p. put (F p) (G p) acc) a b))"
  by (induction b arbitrary: a) (auto simp: distinct_put)







subsection \<open>Slice reducers\<close>

lemma split_without_sep: "sep \<notin> set s \<Longrightarrow> split sep s = [s]"
  by (induction s) auto

lemma split_at_first_sep: "sep \<notin> set s \<Longrightarrow> split sep (s @ sep # t) = s # split sep t"
  by (induction s) auto

lemma sliceActionTypeOf_fullName:
  assumes "SliceSeparator \<notin> set s" and "SliceSeparator \<notin> set h"
  shows "sliceActionTypeOf (fullNameOf s h) = h"
  using assms
  by (simp add: sliceActionTypeOf_def fullNameOf_def split_at_first_sep split_without_sep)

lemma startsWith_fullName: "startsWith (fullNameOf s h) s"
  by (simp add: startsWith_def fullNameOf_def)

lemma registerStateSlice_actions:
  assumes "registerStateSlice self d = Inr self'"
  shows "fst ` set (actionCreators self')
           = fst ` set (actionCreators self) \<union> fullNameOf (sliceName d) ` fst ` set (actionReducers d)"
proof -
  let ?acts = "foldl (\<lambda>registry actionName.
                      put (fullNameOf (sliceName d) actionName)
                          (fullNameOf (sliceName d) actionName) registry)
                    (actionCreators self) (map fst (actionReducers d))"
  from assms have "actionCreators self' = ?acts"
    by (auto simp: registerStateSlice_def createSelectors'_def Let_def split: sum.splits)
  moreover have "fst ` set ?acts
      = fst ` set (actionCreators self) \<union> fullNameOf (sliceName d) ` set (map fst (actionReducers d))"
    by (rule fold_put_keys)
  ultimately show ?thesis by simp
qed

lemma createReducer_owned:
  assumes "a_type action \<in> fst ` set (actionCreators self) \<or> startsWith (a_type action) ''@@''"
    and "startsWith (a_type action) (sliceName d)"
    and "map_of (actionReducers d) (sliceActionTypeOf (a_type action)) = Some h"
    and "state \<noteq> VUndef"
  shows "createReducer self d state action n =
          (case h state (a_payload action) of
             Inl e \<Rightarrow> Inl e
           | Inr partial \<Rightarrow>
               Inr (VObj n [ObjectProto] (assign (own_props state) (own_props partial)), Suc n))"
proof -
  from assms(1) have v: "\<not> (a_type action \<notin> set (map fst (actionCreators self))
      \<and> \<not> startsWith (a_type action) ''@@'')" by auto
  from assms(3) have l: "lookup (actionReducers d) (sliceActionTypeOf (a_type action))
      = Some (Registered h)" by (simp add: lookup_def)
  from assms(4) have s: "(case state of VUndef \<Rightarrow> initialState d | _ \<Rightarrow> state) = state"
    by (cases state) simp_all
  show ?thesis
    unfolding createReducer_def s Let_def using v l assms(2) by auto
qed

lemma createReducer_lib_owned:
  assumes "a_type action \<in> fst ` set (actionCreators self) \<or> startsWith (a_type action) ''@@''"
    and "startsWith (a_type action) (sliceName d)"
    and "map_of (actionReducers d) (sliceActionTypeOf (a_type action)) = Some h"
    and "state \<noteq> VUndef"
  shows "createReducer_lib self d state action n =
          (case h state (action_val action) of
             Inl e \<Rightarrow> Inl e
           | Inr partial \<Rightarrow>
               Inr (VObj n [ObjectProto] (assign (own_props state) (own_props partial)), Suc n))"
proof -
  from assms(1) have v: "\<not> (a_type action \<notin> set (map fst (actionCreators self))
      \<and> \<not> startsWith (a_type action) ''@@'')" by auto
  from assms(3) have l: "lookup (actionReducers d) (sliceActionTypeOf (a_type action))
      = Some (Registered h)" by (simp add: lookup_def)
  from assms(4) have s: "(case state of VUndef \<Rightarrow> initialState d | _ \<Rightarrow> state) = state"
    by (cases state) simp_all
  show ?thesis
    unfolding createReducer_lib_def s Let_def using v l assms(2) by auto
qed

lemma createReducer_not_owned:
  assumes "a_type action \<in> fst ` set (actionCreators self) \<or> startsWith (a_type action) ''@@''"
    and "\<not> startsWith (a_type action) (sliceName d)
         \<or> lookup (actionReducers d) (sliceActionTypeOf (a_type action)) = None"
    and "state \<noteq> VUndef"
  shows "createReducer self d state action n = Inr (state, n)"
proof -
  from assms(1) have v: "\<not> (a_type action \<notin> set (map fst (actionCreators self))
      \<and> \<not> startsWith (a_type action) ''@@'')" by auto
  from assms(3) have s: "(case state of VUndef \<Rightarrow> initialState d | _ \<Rightarrow> state) = state"
    by (cases state) simp_all
  show ?thesis
    unfolding createReducer_def s Let_def using v assms(2) by auto
qed

lemma createReducer_inherited:
  assumes "a_type action \<in> fst ` set (actionCreators self) \<or> startsWith (a_type action) ''@@''"
    and "startsWith (a_type action) (sliceName d)"
    and "sliceActionTypeOf (a_type action) \<notin> fst ` set (actionReducers d)"
    and "sliceActionTypeOf (a_type action) \<in> set object_prototype_keys"
    and "state \<noteq> VUndef"
  shows "createReducer self d state action n =
          (case callObjectPrototype (sliceActionTypeOf (a_type action)) d state (a_payload action) of
             Inl e \<Rightarrow> Inl e
           | Inr partial \<Rightarrow>
               Inr (VObj n [ObjectProto] (assign (own_props state) (own_props partial)), Suc n))"
    and "createReducer_lib self d state action n =
          (case callObjectPrototype (sliceActionTypeOf (a_type action)) d state (action_val action) of
             Inl e \<Rightarrow> Inl e
           | Inr partial \<Rightarrow>
               Inr (VObj n [ObjectProto] (assign (own_props state) (own_props partial)), Suc n))"
proof -
  from assms(1) have v: "\<not> (a_type action \<notin> set (map fst (actionCreators self))
      \<and> \<not> startsWith (a_type action) ''@@'')" by auto
  from assms(3) have "map_of (actionReducers d) (sliceActionTypeOf (a_type action)) = None"
    by (simp add: map_of_eq_None_iff)
  with assms(4) have l: "lookup (actionReducers d) (sliceActionTypeOf (a_type action))
      = Some (Inherited (sliceActionTypeOf (a_type action)))" by (simp add: lookup_def)
  from assms(5) have s: "(case state of VUndef \<Rightarrow> initialState d | _ \<Rightarrow> state) = state"
    by (cases state) simp_all
  show "createReducer self d state action n =
          (case callObjectPrototype (sliceActionTypeOf (a_type action)) d state (a_payload action) of
             Inl e \<Rightarrow> Inl e
           | Inr partial \<Rightarrow>
               Inr (VObj n [ObjectProto] (assign (own_props state) (own_props partial)), Suc n))"
    unfolding createReducer_def s Let_def using v l assms(2) by auto
  show "createReducer_lib self d state action n =
          (case callObjectPrototype (sliceActionTypeOf (a_type action)) d state (action_val action) of
             Inl e \<Rightarrow> Inl e
           | Inr partial \<Rightarrow>
               Inr (VObj n [ObjectProto] (assign (own_props state) (own_props partial)), Suc n))"
    unfolding createReducer_lib_def s Let_def using v l assms(2) by auto
qed

lemma callObjectPrototype_members:
  "callObjectPrototype ''toString'' d v w = Inr (VStr ''[object Object]'')"
  "callObjectPrototype ''isPrototypeOf'' d v w = Inr (VBool False)"
  "callObjectPrototype ''constructor'' d (VObj r c ps) w = Inr (VObj r c ps)"
  "callObjectPrototype ''__proto__'' d v w
     = Inl (TypeError ''sliceDescriptor.actionReducers.__proto__ is not a function'')"
  by (simp_all add: callObjectPrototype_def)

subsection \<open>What the public operations leave unchanged\<close>

lemma closures_put:
  assumes "map_of ps k = Some f" and "s_sliceName f' = s_sliceName f" and "s_body f' = s_body f"
  shows "map (\<lambda>nf. (fst nf, s_sliceName (snd nf), s_body (snd nf))) (put k f' ps)
       = map (\<lambda>nf. (fst nf, s_sliceName (snd nf), s_body (snd nf))) ps"
  using assms by (induction ps) (auto split: if_splits)

lemma callSelector_bindings:
  "bindings (snd (snd (callSelector self n options maybeState))) = bindings self"
proof (cases "map_of (selectors self) n")
  case None
  then show ?thesis by (simp add: callSelector_def)
next
  case (Some f)
  let ?state = "if truthy maybeState then maybeState else currentState self"
  show ?thesis
  proof (cases "read_prop ?state (s_sliceName f)")
    case (Inl e)
    with Some show ?thesis by (simp add: callSelector_def Let_def)
  next
    case (Inr slice)
    have "map (\<lambda>nf. (fst nf, s_sliceName (snd nf), s_body (snd nf)))
            (put n (f\<lparr>prevState := ?state\<rparr>) (selectors self))
        = map (\<lambda>nf. (fst nf, s_sliceName (snd nf), s_body (snd nf))) (selectors self)"
      by (rule closures_put[OF Some]) simp_all
    then show ?thesis
      by (simp add: callSelector_registered[OF Some refl Inr] bindings_def)
  qed
qed

lemma dispatch_bindings: "bindings (snd (dispatch self a)) = bindings self"
  by (simp add: dispatch_def bindings_def split: sum.splits prod.splits)

lemma callBoundAction_bindings:
  "bindings (snd (callBoundAction self type payload meta)) = bindings self"
proof -
  have "bindings (self\<lparr>nextRef := Suc (nextRef self)\<rparr>) = bindings self"
    by (simp add: bindings_def)
  then show ?thesis
    by (simp add: callBoundAction_def createBoundAction_def Let_def dispatch_bindings)
qed

lemma invokeSelector_bindings:
  "bindings (snd (invokeSelector self n f options state)) = bindings self"
proof (cases f)
  case None
  then show ?thesis by (simp add: invokeSelector_def)
next
  case (Some m)
  show ?thesis
  proof (cases m)
    case (Registered s)
    obtain res slice self' where c: "callSelector self n options state = (res, slice, self')"
      by (cases "callSelector self n options state")
    from callSelector_bindings[of self n options state] c
    have "bindings self' = bindings self" by simp
    with Some Registered c show ?thesis by (simp add: invokeSelector_def)
  next
    case (Inherited k)
    with Some show ?thesis by (simp add: invokeSelector_def)
  qed
qed

lemma selectOne_bindings: "bindings (snd (selectOne self n options state)) = bindings self"
  by (simp add: selectOne_def invokeSelector_bindings split: sum.splits)

lemma selectLoop_bindings:
  "bindings (snd (selectLoop self sels options state acc)) = bindings self"
proof (induction sels arbitrary: self acc)
  case Nil
  then show ?case by simp
next
  case (Cons nf rest)
  obtain res self' where i: "invokeSelector self (fst nf) (snd nf) options state = (res, self')"
    by (cases "invokeSelector self (fst nf) (snd nf) options state")
  from invokeSelector_bindings[of self "fst nf" "snd nf" options state] i
  have b: "bindings self' = bindings self" by simp
  show ?case
  proof (cases res)
    case (Inl e)
    with i b show ?thesis by simp
  next
    case (Inr v)
    with i b Cons.IH[of self' "put (fst nf) v acc"] show ?thesis by simp
  qed
qed

lemma select_bindings: "bindings (snd (select self q options state)) = bindings self"
  by (simp add: select_def selectLoop_bindings split: sum.splits)

lemma invokeAction_bindings: "bindings (snd (invokeAction self f payload meta)) = bindings self"
  by (cases f) (simp_all add: invokeAction_def callBoundAction_bindings)

lemma strictDispatch_bindings: "bindings (snd (strictDispatch self a)) = bindings self"
  by (simp add: strictDispatch_def invokeAction_bindings split: sum.splits)

lemma perform_bindings: "bindings (perform self c) = bindings self"
  by (cases c)
     (simp_all add: select_bindings selectOne_bindings strictDispatch_bindings
        createMapStateToProps_def invokeSelector_bindings invokeAction_bindings
        split: option.splits)

subsection \<open>The results of a query\<close>

lemma lookup_registered: "map_of ps n = Some f \<Longrightarrow> lookup ps n = Some (Registered f)"
  by (simp add: lookup_def)

lemma lookup_key: "n \<in> fst ` set ps \<Longrightarrow> \<exists>f. map_of ps n = Some f"
  by (cases "map_of ps n") (auto simp: map_of_eq_None_iff)

lemma resolveClause_separator:
  assumes "SliceSeparator \<in> set c"
  shows "resolveClause registry c
       = (if c \<in> fst ` set registry \<or> c \<in> set object_prototype_keys then [c] else [])"
proof (cases "map_of registry c")
  case None
  then have "c \<notin> fst ` set registry" by (simp add: map_of_eq_None_iff)
  with None show ?thesis
    by (simp add: resolveClause_def lookup_def assms)
next
  case (Some f)
  then have "(c, f) \<in> set registry" by (rule map_of_SomeD)
  then have "c \<in> fst ` set registry" by force
  with Some show ?thesis
    by (simp add: resolveClause_def lookup_def assms)
qed

lemma fold_put_values:
  "map_of (foldl (\<lambda>acc n. put n (g n) acc) [] ns) = (\<lambda>n. if n \<in> set ns then Some (g n) else None)"
  by (rule ext) (simp add: map_of_fold_put)

lemma getSelectors_exact:
  assumes "normalizeQuery (selectors self) ''_selectors'' q = Inr names"
  shows "\<exists>sels. getSelectors self q = Inr sels \<and> fst ` set sels = set names
           \<and> distinct (map fst sels)
           \<and> (\<forall>n\<in>set names. map_of sels n = Some (lookup (selectors self) n))"
proof -
  let ?sels = "foldl (\<lambda>acc selectorName. put selectorName (lookup (selectors self) selectorName) acc)
              [] names"
  have "getSelectors self q = Inr ?sels" using assms by (simp add: getSelectors_def)
  moreover have "fst ` set ?sels = set names" by (simp add: keys_fold_put)
  moreover have "distinct (map fst ?sels)"
    using fold_put_distinct[of "[]" "\<lambda>n. n" "\<lambda>n. lookup (selectors self) n" names] by simp
  moreover have "\<forall>n\<in>set names. map_of ?sels n = Some (lookup (selectors self) n)"
    by (simp add: map_of_fold_put)
  ultimately show ?thesis by blast
qed

lemma getActions_exact:
  assumes "normalizeQuery (actionCreators self) ''_actionCreators'' q = Inr names"
  shows "\<exists>acts. getActions self q = Inr acts \<and> fst ` set acts = set names
           \<and> distinct (map fst acts)
           \<and> (\<forall>n\<in>set names. map_of acts n = Some (lookup (actionCreators self) n))"
proof -
  let ?acts = "foldl (\<lambda>acc name. put name (lookup (actionCreators self) name) acc) [] names"
  have "getActions self q = Inr ?acts" using assms by (simp add: getActions_def)
  moreover have "fst ` set ?acts = set names" by (simp add: keys_fold_put)
  moreover have "distinct (map fst ?acts)"
    using fold_put_distinct[of "[]" "\<lambda>n. n" "\<lambda>n. lookup (actionCreators self) n" names] by simp
  moreover have "\<forall>n\<in>set names. map_of ?acts n = Some (lookup (actionCreators self) n)"
    by (simp add: map_of_fold_put)
  ultimately show ?thesis by blast
qed

lemma callSelector_currentState:
  "currentState (snd (snd (callSelector self n options maybeState))) = currentState self"
  by (simp add: callSelector_def Let_def split: option.splits sum.splits)

lemma invokeSelector_currentState:
  "currentState (snd (invokeSelector self n f options state)) = currentState self"
proof (cases f)
  case None
  then show ?thesis by (simp add: invokeSelector_def)
next
  case (Some m)
  show ?thesis
  proof (cases m)
    case (Registered s)
    obtain res slice self' where c: "callSelector self n options state = (res, slice, self')"
      by (cases "callSelector self n options state")
    from callSelector_currentState[of self n options state] c
    have "currentState self' = currentState self" by simp
    with Some Registered c show ?thesis by (simp add: invokeSelector_def)
  next
    case (Inherited k)
    with Some show ?thesis by (simp add: invokeSelector_def)
  qed
qed

lemma selectLoop_values:
  assumes "fst (selectLoop self sels options state acc) = Inr vals"
    and "distinct (map fst sels)"
  shows "(\<forall>nf\<in>set sels. \<exists>self' v.
            bindings self' = bindings self \<and> currentState self' = currentState self
            \<and> fst (invokeSelector self' (fst nf) (snd nf) options state) = Inr v
            \<and> map_of vals (fst nf) = Some v)
       \<and> (\<forall>n. n \<notin> fst ` set sels \<longrightarrow> map_of vals n = map_of acc n)"
  using assms
proof (induction sels arbitrary: self acc)
  case Nil
  then show ?case by simp
next
  case (Cons nf rest)
  obtain res self1 where i: "invokeSelector self (fst nf) (snd nf) options state = (res, self1)"
    by (cases "invokeSelector self (fst nf) (snd nf) options state")
  from invokeSelector_bindings[of self "fst nf" "snd nf" options state] i
  have b: "bindings self1 = bindings self" by simp
  from invokeSelector_currentState[of self "fst nf" "snd nf" options state] i
  have c: "currentState self1 = currentState self" by simp
  show ?case
  proof (cases res)
    case (Inl e)
    with i Cons.prems show ?thesis by simp
  next
    case (Inr v)
    with i Cons.prems
    have l: "fst (selectLoop self1 rest options state (put (fst nf) v acc)) = Inr vals"
      and d: "distinct (map fst rest)" and nin: "fst nf \<notin> fst ` set rest"
      by simp_all
    note ih = Cons.IH[OF l d]
    from ih nin have here: "map_of vals (fst nf) = Some v"
      by (simp add: map_of_put)
    have first: "\<exists>self' w. bindings self' = bindings self \<and> currentState self' = currentState self
            \<and> fst (invokeSelector self' (fst nf) (snd nf) options state) = Inr w
            \<and> map_of vals (fst nf) = Some w"
      using i Inr here by (intro exI[of _ self] exI[of _ v]) simp
    have others: "\<exists>self' w. bindings self' = bindings self \<and> currentState self' = currentState self
            \<and> fst (invokeSelector self' (fst x) (snd x) options state) = Inr w
            \<and> map_of vals (fst x) = Some w" if "x \<in> set rest" for x
      using ih that b c by (metis)
    have frame: "map_of vals n = map_of acc n" if "n \<notin> fst ` set (nf # rest)" for n
      using ih that by (simp add: map_of_put)
    from first others frame show ?thesis by auto
  qed
qed

subsection \<open>The scenarios\<close>

lemma counter_build: "StrictRedux [counter] = Inr counterStore"
  by (simp add: scenario_defs counter_def counterStore_def)

lemma pair_build: "StrictRedux [sliceA, sliceAB] = Inr pairStore"
  by (simp add: scenario_defs sliceA_def sliceAB_def pairStore_def)

lemma t_build: "StrictRedux [sliceT] = Inr tStore"
  by (simp add: scenario_defs sliceT_def tStore_def)

section \<open>The claims\<close>

text \<open>
  C1. When a slice's reducer receives an action it owns, the handler is to be called with
  the current slice state and the payload of the action, not with the action, and the new
  slice state is the handler's result merged over the current one; on the slice \<open>counter\<close>
  two dispatches of \<open>counter_increment\<close> with payload 5 then give \<open>{counter: {value: 10}}\<close>
  and the selector \<open>counter_value\<close> reads 10. The reducer of src/StrictRedux.js does so
  (\<open>createReducer_owned\<close>, and the scenario below). The reducer of the compiled build
  hands the handler the whole action object (\<open>createReducer_lib_owned\<close>): on the first
  dispatch of the scenario the handler adds the action to 0, and the slice becomes
  \<open>{value: '0[object Object]'}\<close> where the source's reducer gives \<open>{value: 5}\<close>.
\<close>

theorem compiled_reducer_passes_whole_action:
  "StrictRedux [counter] = Inr counterStore
   \<and> currentState (snd (callBoundAction
         (snd (callBoundAction counterStore ''counter_increment'' (VNum 5) VUndef))
         ''counter_increment'' (VNum 5) VUndef))
       = VObj 9 [ObjectProto] [(''counter'', VObj 10 [ObjectProto] [(''value'', VNum 10)])]
   \<and> fst (selectOne (snd (callBoundAction
         (snd (callBoundAction counterStore ''counter_increment'' (VNum 5) VUndef))
         ''counter_increment'' (VNum 5) VUndef)) ''counter_value'' VUndef VUndef) = Inr (VNum 10)
   \<and> createReducer counterStore counter (VObj 1 [ObjectProto] [(''value'', VNum 0)])
        \<lparr>a_ref = 5, a_type = ''counter_increment'', a_payload = VNum 5, a_meta = None,
         a_error = False\<rparr> 6
       = Inr (VObj 6 [ObjectProto] [(''value'', VNum 5)], 7)
   \<and> createReducer_lib counterStore counter (VObj 1 [ObjectProto] [(''value'', VNum 0)])
        \<lparr>a_ref = 5, a_type = ''counter_increment'', a_payload = VNum 5, a_meta = None,
         a_error = False\<rparr> 6
       = Inr (VObj 6 [ObjectProto] [(''value'', VStr ''0[object Object]'')], 7)"
  by (simp add: counter_build)
     (simp add: scenario_defs createReducer_lib_def action_val_def counter_def counterStore_def)

text \<open>
  C3. Dispatching the action \<open>s_h\<close> is to apply the handler \<open>h\<close> of slice \<open>s\<close> and to leave
  the state of every other slice the same reference. The reducer tests ownership with
  \<open>startsWith(sliceName)\<close> and the second segment of the type. First, with the slices \<open>a\<close>
  and \<open>ab\<close>, each with a handler \<open>inc\<close>, dispatching \<open>ab_inc\<close> runs the handler of \<open>a\<close> as
  well: the state of \<open>a\<close> is a new object with \<open>x\<close> incremented. Second, with a handler key
  that contains the separator, \<open>set_x\<close> on slice \<open>t\<close>, the registered action \<open>t_set_x\<close> is
  looked up as \<open>set\<close>: no handler runs and the store keeps its state.
\<close>

theorem prefix_slice_handles_foreign_action:
  "StrictRedux [sliceA, sliceAB] = Inr pairStore
   \<and> map fst (actionCreators pairStore) = [''a_inc'', ''ab_inc'']
   \<and> get_field (currentState pairStore) ''a'' = VObj 1 [ObjectProto] [(''x'', VNum 0)]
   \<and> get_field (currentState (snd (callBoundAction pairStore ''ab_inc'' (VNum 1) VUndef))) ''a''
       = VObj 8 [ObjectProto] [(''x'', VNum 1)]
   \<and> get_field (currentState (snd (callBoundAction pairStore ''ab_inc'' (VNum 1) VUndef))) ''ab''
       = VObj 9 [ObjectProto] [(''y'', VNum 1)]
   \<and> StrictRedux [sliceT] = Inr tStore
   \<and> map fst (actionCreators tStore) = [''t_set_x'']
   \<and> fst (callBoundAction tStore ''t_set_x'' (VNum 7) VUndef)
       = Inr \<lparr>a_ref = 5, a_type = ''t_set_x'', a_payload = VNum 7, a_meta = None, a_error = False\<rparr>
   \<and> currentState (snd (callBoundAction tStore ''t_set_x'' (VNum 7) VUndef)) = currentState tStore"
  by (simp add: pair_build t_build)
     (simp add: scenario_defs sliceA_def sliceAB_def pairStore_def sliceT_def tStore_def)

text \<open>
  C4. A query is split on commas and each clause trimmed. A clause with the separator
  resolves to itself if it is registered, and also if it names a member that the registry
  inherits from \<open>Object.prototype\<close>, such as \<open>__proto__\<close> or \<open>__defineGetter__\<close>; any other clause
  with the separator resolves to nothing. A clause without the separator resolves to the
  registered names that start with it, in the order of the registry. The first clause that
  resolves to no name raises the error whose message carries the query and that clause;
  otherwise the result lists the names of all clauses in order. \<open>getSelectors\<close>, \<open>select\<close> and
  \<open>getActions\<close> fail with that error, or go on with exactly the resolved names:
  \<open>getSelectors\<close> and \<open>getActions\<close> bind each name to what the registry holds under it, a
  registered name to its registered function, and \<open>select\<close>, when it returns, binds each
  name to the value of a call of that selector on the same store state.
\<close>

theorem query_resolution:
  "(concat (map (\<lambda>p. p @ [QuerySeparator]) (split QuerySeparator q)) = q @ [QuerySeparator]
      \<and> (\<forall>p\<in>set (split QuerySeparator q). QuerySeparator \<notin> set p))
   \<and> (\<forall>p. \<exists>l r. p = l @ trim p @ r \<and> (\<forall>c\<in>set l. is_space c) \<and> (\<forall>c\<in>set r. is_space c)
          \<and> (trim p \<noteq> [] \<longrightarrow> \<not> is_space (hd (trim p)) \<and> \<not> is_space (last (trim p))))
   \<and> (\<forall>c. SliceSeparator \<in> set c \<longrightarrow> c \<in> fst ` set (selectors self) \<longrightarrow>
          resolveClause (selectors self) c = [c])
   \<and> (\<forall>c. SliceSeparator \<in> set c \<longrightarrow> c \<in> fst ` set (actionCreators self) \<longrightarrow>
          resolveClause (actionCreators self) c = [c])
   \<and> (\<forall>c. SliceSeparator \<notin> set c \<longrightarrow>
          resolveClause (selectors self) c
            = filter (\<lambda>n. \<exists>rest. n = c @ rest) (map fst (selectors self))
        \<and> resolveClause (actionCreators self) c
            = filter (\<lambda>n. \<exists>rest. n = c @ rest) (map fst (actionCreators self)))
   \<and> normalizeQuery (selectors self) ''_selectors'' q =
       (case find (\<lambda>c. resolveClause (selectors self) c = []) (map trim (split QuerySeparator q)) of
          Some c \<Rightarrow>
            Inl (Error (''Bad store query _selectors: '' @ q @ ''. Could not resolve '' @ c))
        | None \<Rightarrow>
            Inr (concat (map (resolveClause (selectors self)) (map trim (split QuerySeparator q)))))
   \<and> normalizeQuery (actionCreators self) ''_actionCreators'' q =
       (case find (\<lambda>c. resolveClause (actionCreators self) c = [])
               (map trim (split QuerySeparator q)) of
          Some c \<Rightarrow>
            Inl (Error (''Bad store query _actionCreators: '' @ q @ ''. Could not resolve '' @ c))
        | None \<Rightarrow>
            Inr (concat (map (resolveClause (actionCreators self))
                          (map trim (split QuerySeparator q)))))
   \<and> (\<forall>e. normalizeQuery (selectors self) ''_selectors'' q = Inl e \<longrightarrow>
          getSelectors self q = Inl e \<and> select self q options state = (Inl e, self))
   \<and> (\<forall>e. normalizeQuery (actionCreators self) ''_actionCreators'' q = Inl e \<longrightarrow>
          getActions self q = Inl e)
   \<and> (\<forall>names. normalizeQuery (selectors self) ''_selectors'' q = Inr names \<longrightarrow>
          (\<exists>sels. getSelectors self q = Inr sels \<and> fst ` set sels = set names
             \<and> select self q options state = selectLoop self sels options state []))
   \<and> (\<forall>names. normalizeQuery (actionCreators self) ''_actionCreators'' q = Inr names \<longrightarrow>
          (\<exists>acts. getActions self q = Inr acts \<and> fst ` set acts = set names))
   \<and> (\<forall>c. SliceSeparator \<in> set c \<longrightarrow>
          resolveClause (selectors self) c
            = (if c \<in> fst ` set (selectors self) \<or> c \<in> set object_prototype_keys
               then [c] else [])
        \<and> resolveClause (actionCreators self) c
            = (if c \<in> fst ` set (actionCreators self) \<or> c \<in> set object_prototype_keys
               then [c] else []))
   \<and> (\<forall>names. normalizeQuery (selectors self) ''_selectors'' q = Inr names \<longrightarrow>
          (\<exists>sels. getSelectors self q = Inr sels \<and> distinct (map fst sels)
             \<and> (\<forall>n\<in>set names. map_of sels n = Some (lookup (selectors self) n))
             \<and> (\<forall>vals. fst (select self q options state) = Inr vals \<longrightarrow>
                   fst ` set vals = set names
                   \<and> (\<forall>n\<in>set names. \<exists>self' v.
                         bindings self' = bindings self \<and> currentState self' = currentState self
                         \<and> fst (invokeSelector self' n (lookup (selectors self) n) options state)
                             = Inr v
                         \<and> map_of vals n = Some v))))
   \<and> (\<forall>names. normalizeQuery (actionCreators self) ''_actionCreators'' q = Inr names \<longrightarrow>
          (\<exists>acts. getActions self q = Inr acts \<and> distinct (map fst acts)
             \<and> (\<forall>n\<in>set names. map_of acts n = Some (lookup (actionCreators self) n))))
   \<and> (\<forall>n f. map_of (selectors self) n = Some f \<longrightarrow>
          lookup (selectors self) n = Some (Registered f))
   \<and> (\<forall>n t. map_of (actionCreators self) n = Some t \<longrightarrow>
          lookup (actionCreators self) n = Some (Registered t))"
proof (intro conjI allI impI)
  show "concat (map (\<lambda>p. p @ [QuerySeparator]) (split QuerySeparator q)) = q @ [QuerySeparator]"
    by (rule split_concat)
  show "\<forall>p\<in>set (split QuerySeparator q). QuerySeparator \<notin> set p"
    using split_no_sep by blast
  show "\<exists>l r. p = l @ trim p @ r \<and> (\<forall>c\<in>set l. is_space c) \<and> (\<forall>c\<in>set r. is_space c)
          \<and> (trim p \<noteq> [] \<longrightarrow> \<not> is_space (hd (trim p)) \<and> \<not> is_space (last (trim p)))" for p
    by (rule trim_spec)
  show "resolveClause (selectors self) c = [c]"
    if "SliceSeparator \<in> set c" "c \<in> fst ` set (selectors self)" for c
    using that by (rule resolveClause_full)
  show "resolveClause (actionCreators self) c = [c]"
    if "SliceSeparator \<in> set c" "c \<in> fst ` set (actionCreators self)" for c
    using that by (rule resolveClause_full)
  show "resolveClause (selectors self) c
          = filter (\<lambda>n. \<exists>rest. n = c @ rest) (map fst (selectors self))"
    if "SliceSeparator \<notin> set c" for c
    using that by (simp add: resolveClause_prefix startsWith_iff)
  show "resolveClause (actionCreators self) c
          = filter (\<lambda>n. \<exists>rest. n = c @ rest) (map fst (actionCreators self))"
    if "SliceSeparator \<notin> set c" for c
    using that by (simp add: resolveClause_prefix startsWith_iff)
  show "normalizeQuery (selectors self) ''_selectors'' q =
       (case find (\<lambda>c. resolveClause (selectors self) c = []) (map trim (split QuerySeparator q)) of
          Some c \<Rightarrow>
            Inl (Error (''Bad store query _selectors: '' @ q @ ''. Could not resolve '' @ c))
        | None \<Rightarrow>
            Inr (concat (map (resolveClause (selectors self)) (map trim (split QuerySeparator q)))))"
    by (simp add: normalizeQuery_eq badQuery_def split: option.splits)
  show "normalizeQuery (actionCreators self) ''_actionCreators'' q =
       (case find (\<lambda>c. resolveClause (actionCreators self) c = [])
               (map trim (split QuerySeparator q)) of
          Some c \<Rightarrow>
            Inl (Error (''Bad store query _actionCreators: '' @ q @ ''. Could not resolve '' @ c))
        | None \<Rightarrow>
            Inr (concat (map (resolveClause (actionCreators self))
                          (map trim (split QuerySeparator q)))))"
    by (simp add: normalizeQuery_eq badQuery_def split: option.splits)
  show "getSelectors self q = Inl e"
    if "normalizeQuery (selectors self) ''_selectors'' q = Inl e" for e
    using that by (simp add: getSelectors_def)
  show "select self q options state = (Inl e, self)"
    if "normalizeQuery (selectors self) ''_selectors'' q = Inl e" for e
    using that by (simp add: select_def getSelectors_def)
  show "getActions self q = Inl e"
    if "normalizeQuery (actionCreators self) ''_actionCreators'' q = Inl e" for e
    using that by (simp add: getActions_def)
  show "\<exists>sels. getSelectors self q = Inr sels \<and> fst ` set sels = set names
             \<and> select self q options state = selectLoop self sels options state []"
    if "normalizeQuery (selectors self) ''_selectors'' q = Inr names" for names
    using getSelectors_names[OF that] by (auto simp: select_def)
  show "\<exists>acts. getActions self q = Inr acts \<and> fst ` set acts = set names"
    if "normalizeQuery (actionCreators self) ''_actionCreators'' q = Inr names" for names
    using getActions_names[OF that] by auto
  show "resolveClause (selectors self) c
            = (if c \<in> fst ` set (selectors self) \<or> c \<in> set object_prototype_keys
               then [c] else [])"
    if "SliceSeparator \<in> set c" for c
    using that by (rule resolveClause_separator)
  show "resolveClause (actionCreators self) c
            = (if c \<in> fst ` set (actionCreators self) \<or> c \<in> set object_prototype_keys
               then [c] else [])"
    if "SliceSeparator \<in> set c" for c
    using that by (rule resolveClause_separator)
  show "\<exists>sels. getSelectors self q = Inr sels \<and> distinct (map fst sels)
             \<and> (\<forall>n\<in>set names. map_of sels n = Some (lookup (selectors self) n))
             \<and> (\<forall>vals. fst (select self q options state) = Inr vals \<longrightarrow>
                   fst ` set vals = set names
                   \<and> (\<forall>n\<in>set names. \<exists>self' v.
                         bindings self' = bindings self \<and> currentState self' = currentState self
                         \<and> fst (invokeSelector self' n (lookup (selectors self) n) options state)
                             = Inr v
                         \<and> map_of vals n = Some v))"
    if nq: "normalizeQuery (selectors self) ''_selectors'' q = Inr names" for names
  proof -
    from getSelectors_exact[OF nq] obtain sels where
      g: "getSelectors self q = Inr sels" and k: "fst ` set sels = set names"
      and d: "distinct (map fst sels)"
      and v: "\<forall>n\<in>set names. map_of sels n = Some (lookup (selectors self) n)"
      by (elim exE conjE) (rule that; assumption)
    have s: "fst ` set vals = set names
                   \<and> (\<forall>n\<in>set names. \<exists>self' v.
                         bindings self' = bindings self \<and> currentState self' = currentState self
                         \<and> fst (invokeSelector self' n (lookup (selectors self) n) options state)
                             = Inr v
                         \<and> map_of vals n = Some v)"
      if sv: "fst (select self q options state) = Inr vals" for vals
    proof (intro conjI ballI)
      from sv g have l: "fst (selectLoop self sels options state []) = Inr vals"
        by (simp add: select_def)
      from selectLoop_keys[OF l] k show "fst ` set vals = set names" by simp
      fix n assume n: "n \<in> set names"
      with v have "map_of sels n = Some (lookup (selectors self) n)" by blast
      then have m: "(n, lookup (selectors self) n) \<in> set sels" by (rule map_of_SomeD)
      from selectLoop_values[OF l d, THEN conjunct1, rule_format, OF m]
      show "\<exists>self' v. bindings self' = bindings self \<and> currentState self' = currentState self
                         \<and> fst (invokeSelector self' n (lookup (selectors self) n) options state)
                             = Inr v
                         \<and> map_of vals n = Some v"
        by simp
    qed
    from g d v s show ?thesis by blast
  qed
  show "\<exists>acts. getActions self q = Inr acts \<and> distinct (map fst acts)
             \<and> (\<forall>n\<in>set names. map_of acts n = Some (lookup (actionCreators self) n))"
    if "normalizeQuery (actionCreators self) ''_actionCreators'' q = Inr names" for names
    using getActions_exact[OF that] by blast
  show "lookup (selectors self) n = Some (Registered f)"
    if "map_of (selectors self) n = Some f" for n f
    using that by (rule lookup_registered)
  show "lookup (actionCreators self) n = Some (Registered t)"
    if "map_of (actionCreators self) n = Some t" for n t
    using that by (rule lookup_registered)
qed

theorem query_resolution_witness:
  "SliceSeparator \<in> set ''counter_value''
   \<and> ''counter_value'' \<in> fst ` set (selectors counterStore)
   \<and> resolveClause (selectors counterStore) ''counter_value'' = [''counter_value'']
   \<and> SliceSeparator \<notin> set ''counter''
   \<and> resolveClause (selectors counterStore) ''counter'' = [''counter_value'']
   \<and> normalizeQuery (selectors counterStore) ''_selectors'' '' counter, counter_value ''
       = Inr [''counter_value'', ''counter_value'']
   \<and> normalizeQuery (selectors counterStore) ''_selectors'' ''counter, nope''
       = Inl (Error ''Bad store query _selectors: counter, nope. Could not resolve nope'')
   \<and> SliceSeparator \<in> set ''counter_nope''
   \<and> ''counter_nope'' \<notin> fst ` set (selectors counterStore)
   \<and> ''counter_nope'' \<notin> set object_prototype_keys
   \<and> resolveClause (selectors counterStore) ''counter_nope'' = []
   \<and> getSelectors counterStore ''counter_nope''
       = Inl (Error ''Bad store query _selectors: counter_nope. Could not resolve counter_nope'')
   \<and> ''__proto__'' \<notin> fst ` set (selectors counterStore)
   \<and> resolveClause (selectors counterStore) ''__proto__'' = [''__proto__'']
   \<and> (\<exists>sels. getSelectors counterStore ''counter_value'' = Inr sels
         \<and> map_of sels ''counter_value''
             = Some (Some (Registered
                 \<lparr>s_sliceName = ''counter'',
                  s_body = (\<lambda>stateSlice options. read_prop stateSlice ''value''),
                  prevState = VUndef\<rparr>)))"
proof -
  let ?f = "\<lparr>s_sliceName = ''counter'',
            s_body = (\<lambda>stateSlice options. read_prop stateSlice ''value''), prevState = VUndef\<rparr>"
  have a: "SliceSeparator \<in> set ''counter_value''" and a': "SliceSeparator \<notin> set ''counter''"
    and a2: "SliceSeparator \<in> set ''counter_nope''" and a3: "SliceSeparator \<in> set ''__proto__''"
    by (simp_all add: SliceSeparator_def)
  have b: "''counter_value'' \<in> fst ` set (selectors counterStore)"
    and b2: "''counter_nope'' \<notin> fst ` set (selectors counterStore)"
    and b3: "''__proto__'' \<notin> fst ` set (selectors counterStore)"
    by (simp_all add: counterStore_def)
  have p2: "''counter_nope'' \<notin> set object_prototype_keys"
    and p3: "''__proto__'' \<in> set object_prototype_keys"
    by (simp_all add: object_prototype_keys_def)
  have c: "resolveClause (selectors counterStore) ''counter_value'' = [''counter_value'']"
    by (rule query_resolution[of "[]" counterStore VUndef VUndef, THEN conjunct2, THEN conjunct2,
          THEN conjunct1, rule_format, OF a b])
  have "resolveClause (selectors counterStore) ''counter''
          = filter (\<lambda>n. \<exists>rest. n = ''counter'' @ rest) (map fst (selectors counterStore))"
    by (rule query_resolution[of "[]" counterStore VUndef VUndef, THEN conjunct2, THEN conjunct2,
          THEN conjunct2, THEN conjunct2, THEN conjunct1, rule_format, OF a', THEN conjunct1])
  then have d: "resolveClause (selectors counterStore) ''counter'' = [''counter_value'']"
    by (simp add: counterStore_def)
  have e: "map trim (split QuerySeparator '' counter, counter_value '') = [''counter'', ''counter_value'']"
    and e': "map trim (split QuerySeparator ''counter, nope'') = [''counter'', ''nope'']"
    and e2: "map trim (split QuerySeparator ''counter_nope'') = [''counter_nope'']"
    and e3: "map trim (split QuerySeparator ''counter_value'') = [''counter_value'']"
    by (simp_all add: QuerySeparator_def trim_def is_space_def)
  have f: "resolveClause (selectors counterStore) ''nope'' = []"
    by (simp add: resolveClause_def counterStore_def SliceSeparator_def startsWith_def)
  have g: "normalizeQuery (selectors counterStore) ''_selectors'' '' counter, counter_value ''
       = Inr [''counter_value'', ''counter_value'']"
    by (simp add: query_resolution[of "'' counter, counter_value ''" counterStore VUndef VUndef,
          THEN conjunct2, THEN conjunct2, THEN conjunct2, THEN conjunct2, THEN conjunct2,
          THEN conjunct1, unfolded e] c d)
  have h: "normalizeQuery (selectors counterStore) ''_selectors'' ''counter, nope''
       = Inl (Error ''Bad store query _selectors: counter, nope. Could not resolve nope'')"
    by (simp add: query_resolution[of "''counter, nope''" counterStore VUndef VUndef,
          THEN conjunct2, THEN conjunct2, THEN conjunct2, THEN conjunct2, THEN conjunct2,
          THEN conjunct1, unfolded e'] d f)
  note sep = query_resolution[of "[]" counterStore VUndef VUndef, THEN conjunct2, THEN conjunct2,
          THEN conjunct2, THEN conjunct2, THEN conjunct2, THEN conjunct2, THEN conjunct2,
          THEN conjunct2, THEN conjunct2, THEN conjunct2, THEN conjunct2, THEN conjunct1,
          rule_format]
  have r2: "resolveClause (selectors counterStore) ''counter_nope'' = []"
    using sep[OF a2, THEN conjunct1] b2 p2 by simp
  have r3: "resolveClause (selectors counterStore) ''__proto__'' = [''__proto__'']"
    using sep[OF a3, THEN conjunct1] p3 by simp
  have n2: "normalizeQuery (selectors counterStore) ''_selectors'' ''counter_nope''
       = Inl (Error ''Bad store query _selectors: counter_nope. Could not resolve counter_nope'')"
    by (simp add: query_resolution[of "''counter_nope''" counterStore VUndef VUndef,
          THEN conjunct2, THEN conjunct2, THEN conjunct2, THEN conjunct2, THEN conjunct2,
          THEN conjunct1, unfolded e2] r2)
  have g2: "getSelectors counterStore ''counter_nope''
       = Inl (Error ''Bad store query _selectors: counter_nope. Could not resolve counter_nope'')"
    by (rule query_resolution[of "''counter_nope''" counterStore VUndef VUndef,
          THEN conjunct2, THEN conjunct2, THEN conjunct2, THEN conjunct2, THEN conjunct2,
          THEN conjunct2, THEN conjunct2, THEN conjunct1, rule_format, OF n2, THEN conjunct1])
  have n3: "normalizeQuery (selectors counterStore) ''_selectors'' ''counter_value''
       = Inr [''counter_value'']"
    by (simp add: query_resolution[of "''counter_value''" counterStore VUndef VUndef,
          THEN conjunct2, THEN conjunct2, THEN conjunct2, THEN conjunct2, THEN conjunct2,
          THEN conjunct1, unfolded e3] c)
  have m: "map_of (selectors counterStore) ''counter_value'' = Some ?f"
    by (simp add: counterStore_def)
  have l: "lookup (selectors counterStore) ''counter_value'' = Some (Registered ?f)"
    by (rule query_resolution[of "[]" counterStore VUndef VUndef, THEN conjunct2, THEN conjunct2,
          THEN conjunct2, THEN conjunct2, THEN conjunct2, THEN conjunct2, THEN conjunct2,
          THEN conjunct2, THEN conjunct2, THEN conjunct2, THEN conjunct2, THEN conjunct2,
          THEN conjunct2, THEN conjunct2, THEN conjunct1, rule_format, OF m])
  from query_resolution[of "''counter_value''" counterStore VUndef VUndef, THEN conjunct2,
          THEN conjunct2, THEN conjunct2, THEN conjunct2, THEN conjunct2, THEN conjunct2,
          THEN conjunct2, THEN conjunct2, THEN conjunct2, THEN conjunct2, THEN conjunct2,
          THEN conjunct2, THEN conjunct1, rule_format, OF n3]
  obtain sels where s1: "getSelectors counterStore ''counter_value'' = Inr sels"
    and s2: "\<forall>n\<in>set [''counter_value'']. map_of sels n
               = Some (lookup (selectors counterStore) n)"
    by (elim exE conjE) (rule that; assumption)
  from s2 l have "map_of sels ''counter_value'' = Some (Some (Registered ?f))"
    by simp
  with s1 have v: "\<exists>sels. getSelectors counterStore ''counter_value'' = Inr sels
         \<and> map_of sels ''counter_value'' = Some (Some (Registered ?f))"
    by (intro exI conjI)
  from a b c a' d g h a2 b2 p2 r2 g2 b3 r3 v show ?thesis by (intro conjI)
qed




text \<open>
  C2. On an action whose type is neither a key of \<open>_actionCreators\<close> nor prefixed with
  \<open>@@\<close>, the reducer of every slice throws the unknown-action-type error, whatever its
  state; a store with at least one slice therefore fails the dispatch in the first reducer
  it calls, and the instance, with the state of the store, is what it was.
\<close>

theorem unknown_action_type_throws:
  assumes "a_type action \<notin> fst ` set (actionCreators self)"
    and "\<not> startsWith (a_type action) ''@@''"
  shows "(\<forall>d state n. createReducer self d state action n
            = Inl (Error (''Unknown action type '' @ a_type action)))
       \<and> (reducers self \<noteq> [] \<longrightarrow>
            dispatch self action = (Inl (Error (''Unknown action type '' @ a_type action)), self))"
proof (intro conjI allI impI)
  show r: "createReducer self d state action n
            = Inl (Error (''Unknown action type '' @ a_type action))" for d state n
    using assms by (simp add: createReducer_def)
  assume "reducers self \<noteq> []"
  then obtain kd rest where "reducers self = kd # rest" by (cases "reducers self") auto
  then show "dispatch self action = (Inl (Error (''Unknown action type '' @ a_type action)), self)"
    by (simp add: dispatch_def combination_def r)
qed

theorem unknown_action_type_throws_witness:
  "''a_nonexistent'' \<notin> fst ` set (actionCreators counterStore)
   \<and> \<not> startsWith ''a_nonexistent'' ''@@''
   \<and> reducers counterStore \<noteq> []
   \<and> dispatch counterStore
        \<lparr>a_ref = 5, a_type = ''a_nonexistent'', a_payload = VUndef, a_meta = None, a_error = False\<rparr>
       = (Inl (Error ''Unknown action type a_nonexistent''), counterStore)"
proof -
  let ?a = "\<lparr>a_ref = 5, a_type = ''a_nonexistent'', a_payload = VUndef, a_meta = None,
             a_error = False\<rparr>"
  have a: "a_type ?a \<notin> fst ` set (actionCreators counterStore)"
    by (simp add: counterStore_def)
  have b: "\<not> startsWith (a_type ?a) ''@@''"
    by (simp add: startsWith_def)
  have c: "reducers counterStore \<noteq> []"
    by (simp add: counterStore_def)
  from unknown_action_type_throws[OF a b, THEN conjunct2, THEN mp, OF c]
  have d: "dispatch counterStore ?a = (Inl (Error ''Unknown action type a_nonexistent''), counterStore)"
    by simp
  from a b c d show ?thesis by simp
qed

text \<open>
  C6. A bound action called with \<open>(payload, meta)\<close> hands to the dispatch function of the
  store, and returns what it returns, the action with its type and the payload; \<open>meta\<close>
  is a property of the action exactly when the argument is truthy, so never for an omitted
  argument and never with the value \<open>undefined\<close> or \<open>null\<close>; \<open>error\<close> is set exactly when the
  payload is an object with \<open>Error.prototype\<close> on its prototype chain, as its own prototype
  or further up.
\<close>

theorem bound_action_builds_fsa:
  "createBoundAction storeDispatch type r payload meta
     = storeDispatch \<lparr>a_ref = r, a_type = type, a_payload = payload,
                      a_meta = (if truthy meta then Some meta else None),
                      a_error = (is_object payload \<and> ErrorProto \<in> set (proto_chain payload))\<rparr>
   \<and> callBoundAction self type payload meta
     = dispatch (self\<lparr>nextRef := Suc (nextRef self)\<rparr>)
         \<lparr>a_ref = nextRef self, a_type = type, a_payload = payload,
          a_meta = (if truthy meta then Some meta else None),
          a_error = (is_object payload \<and> ErrorProto \<in> set (proto_chain payload))\<rparr>
   \<and> (truthy meta \<longrightarrow> meta \<noteq> VUndef \<and> meta \<noteq> VNull)
   \<and> ((is_object payload \<and> ErrorProto \<in> set (proto_chain payload))
        \<longleftrightarrow> is_object payload
            \<and> ((\<exists>rest. proto_chain payload = ErrorProto # rest)
                \<or> ErrorProto \<in> set (tl (proto_chain payload))))"
proof (intro conjI)
  show b: "createBoundAction storeDispatch type r payload meta
     = storeDispatch \<lparr>a_ref = r, a_type = type, a_payload = payload,
                      a_meta = (if truthy meta then Some meta else None),
                      a_error = (is_object payload \<and> ErrorProto \<in> set (proto_chain payload))\<rparr>"
    for storeDispatch :: "action \<Rightarrow> 'x" and r
    by (cases "is_object payload \<and> ErrorProto \<in> set (proto_chain payload)")
       (simp_all add: createBoundAction_def Let_def error_like_iff cong: conj_cong)
  show "callBoundAction self type payload meta
     = dispatch (self\<lparr>nextRef := Suc (nextRef self)\<rparr>)
         \<lparr>a_ref = nextRef self, a_type = type, a_payload = payload,
          a_meta = (if truthy meta then Some meta else None),
          a_error = (is_object payload \<and> ErrorProto \<in> set (proto_chain payload))\<rparr>"
    unfolding callBoundAction_def by (rule b)
  show "truthy meta \<longrightarrow> meta \<noteq> VUndef \<and> meta \<noteq> VNull"
    by (cases meta) auto
  show "(is_object payload \<and> ErrorProto \<in> set (proto_chain payload))
        \<longleftrightarrow> is_object payload
            \<and> ((\<exists>rest. proto_chain payload = ErrorProto # rest)
                \<or> ErrorProto \<in> set (tl (proto_chain payload)))"
    by (cases "proto_chain payload") auto
qed

theorem bound_action_builds_fsa_witness:
  "truthy (VStr ''m'')
   \<and> createBoundAction (\<lambda>a. a) ''counter_increment'' 5
        (VObj 7 [UserProto 0, ErrorProto, ObjectProto] [(''message'', VStr ''boom'')]) (VStr ''m'')
     = \<lparr>a_ref = 5, a_type = ''counter_increment'',
        a_payload = VObj 7 [UserProto 0, ErrorProto, ObjectProto] [(''message'', VStr ''boom'')],
        a_meta = Some (VStr ''m''), a_error = True\<rparr>
   \<and> createBoundAction (\<lambda>a. a) ''counter_increment'' 5 (VNum 5) VUndef
     = \<lparr>a_ref = 5, a_type = ''counter_increment'', a_payload = VNum 5,
        a_meta = None, a_error = False\<rparr>"
proof -
  have a: "truthy (VStr ''m'')" by simp
  have b: "createBoundAction (\<lambda>a. a) ''counter_increment'' 5
        (VObj 7 [UserProto 0, ErrorProto, ObjectProto] [(''message'', VStr ''boom'')]) (VStr ''m'')
     = \<lparr>a_ref = 5, a_type = ''counter_increment'',
        a_payload = VObj 7 [UserProto 0, ErrorProto, ObjectProto] [(''message'', VStr ''boom'')],
        a_meta = Some (VStr ''m''), a_error = True\<rparr>"
    by (simp add: bound_action_builds_fsa[of "\<lambda>a. a" "''counter_increment''" 5
          "VObj 7 [UserProto 0, ErrorProto, ObjectProto] [(''message'', VStr ''boom'')]"
          "VStr ''m''" counterStore, THEN conjunct1])
  have c: "createBoundAction (\<lambda>a. a) ''counter_increment'' 5 (VNum 5) VUndef
     = \<lparr>a_ref = 5, a_type = ''counter_increment'', a_payload = VNum 5,
        a_meta = None, a_error = False\<rparr>"
    by (simp add: bound_action_builds_fsa[of "\<lambda>a. a" "''counter_increment''" 5
          "VNum 5" VUndef counterStore, THEN conjunct1])
  from a b c show ?thesis by (intro conjI)
qed

text \<open>
  C8. \<open>strictDispatch\<close> is to throw the not-found error for every action type that is not
  registered. \<open>getAction\<close> reads \<open>this._actionCreators[actionName]\<close> on an object literal,
  so for the type \<open>toString\<close>, which no slice registers, it finds the member inherited from
  \<open>Object.prototype\<close>, throws nothing, and \<open>strictDispatch\<close> calls that member in place of a
  bound action. Nothing is dispatched. A type that is neither registered nor inherited
  gets the error, and a registered type goes to its bound action.
\<close>

theorem strictDispatch_inherited_member:
  "''toString'' \<notin> fst ` set (actionCreators counterStore)
   \<and> strictDispatch counterStore
        \<lparr>a_ref = 5, a_type = ''toString'', a_payload = VUndef, a_meta = None, a_error = False\<rparr>
       = (Inl (InheritedCall ''toString''), counterStore)
   \<and> strictDispatch counterStore
        \<lparr>a_ref = 5, a_type = ''nope'', a_payload = VUndef, a_meta = None, a_error = False\<rparr>
       = (Inl (Error ''Action nope not found''), counterStore)
   \<and> strictDispatch counterStore
        \<lparr>a_ref = 5, a_type = ''counter_increment'', a_payload = VNum 5, a_meta = None,
         a_error = False\<rparr>
       = callBoundAction counterStore ''counter_increment'' (VNum 5) VUndef"
  by (simp add: strictDispatch_def getAction_def invokeAction_def lookup_def
        object_prototype_keys_def counterStore_def)


text \<open>
  C5, as stated: two consecutive calls of a selector with the same whole-state object pass
  the identical slice reference to the underlying selector. On the instance of the counter
  scenario the first two calls of \<open>counter_value\<close>, both with the current state of the
  store, pass a fresh copy of the slice and then the slice itself: two different
  references.
\<close>

theorem first_call_gets_a_copy:
  "fst (snd (callSelector counterStore ''counter_value'' VUndef (currentState counterStore)))
     = VObj 5 [ObjectProto] [(''value'', VNum 0)]
   \<and> fst (snd (callSelector
        (snd (snd (callSelector counterStore ''counter_value'' VUndef (currentState counterStore))))
        ''counter_value'' VUndef (currentState counterStore)))
     = VObj 1 [ObjectProto] [(''value'', VNum 0)]
   \<and> \<not> strict_eq
        (fst (snd (callSelector counterStore ''counter_value'' VUndef (currentState counterStore))))
        (fst (snd (callSelector
           (snd (snd (callSelector counterStore ''counter_value'' VUndef (currentState counterStore))))
           ''counter_value'' VUndef (currentState counterStore))))"
  by (simp add: callSelector_def counterStore_def Let_def lookup_def)

text \<open>
  C5, amended. A call whose whole state is the reference that the memo \<open>prevState\<close> holds,
  that is the whole state of the call before, passes \<open>state[sliceName]\<close> itself; any other
  call passes a new object with a fresh reference and the own properties of
  \<open>state[sliceName]\<close>, distinct from that slice object. After every call the memo is the
  whole state of that call. Hence, of consecutive calls with one whole state, all but
  possibly the first pass the identical reference, and a call that follows a call with
  another whole state passes a distinct copy, whether or not the slice changed.
\<close>

theorem selector_memo_guard:
  assumes reg: "map_of (selectors self) name = Some f"
    and st: "state = (if truthy maybeState then maybeState else currentState self)"
    and sl: "read_prop state (s_sliceName f) = Inr slice"
    and call: "callSelector self name options maybeState = (res, passed, self')"
  shows
   "(strict_eq (prevState f) state \<longrightarrow> passed = slice)
    \<and> (\<not> strict_eq (prevState f) state \<longrightarrow>
          passed = VObj (nextRef self) [ObjectProto] (own_props slice)
          \<and> (ref_of slice < nextRef self \<longrightarrow> \<not> strict_eq passed slice))
    \<and> res = s_body f passed options
    \<and> map_of (selectors self') name = Some (f\<lparr>prevState := state\<rparr>)
    \<and> (\<forall>options2. fst (snd (callSelector self' name options2 maybeState)) = slice
          \<and> (\<forall>options3. fst (snd (callSelector
                 (snd (snd (callSelector self' name options2 maybeState))) name options3 maybeState))
               = slice))
    \<and> (\<forall>options2 maybeState2 state2 slice2.
          state2 = (if truthy maybeState2 then maybeState2 else currentState self')
          \<and> \<not> strict_eq state state2
          \<and> read_prop state2 (s_sliceName f) = Inr slice2
          \<longrightarrow> fst (snd (callSelector self' name options2 maybeState2))
                = VObj (nextRef self') [ObjectProto] (own_props slice2)
              \<and> (ref_of slice2 < nextRef self' \<longrightarrow>
                    \<not> strict_eq (fst (snd (callSelector self' name options2 maybeState2))) slice2))"
proof -
  let ?same = "strict_eq (prevState f) state"
  let ?f' = "f\<lparr>prevState := state\<rparr>"
  note st' = st[symmetric]
  from callSelector_registered[OF reg st' sl, of options] call
  have passed: "passed = (if ?same then slice else VObj (nextRef self) [ObjectProto] (own_props slice))"
    and res: "res = s_body f passed options"
    and self': "self' = self\<lparr>selectors := put name ?f' (selectors self),
                  nextRef := (if ?same then nextRef self else Suc (nextRef self))\<rparr>"
    by simp_all
  have reg': "map_of (selectors self') name = Some ?f'"
    by (simp add: self' map_of_put)
  have cs: "currentState self' = currentState self"
    by (simp add: self')
  have st2: "(if truthy maybeState then maybeState else currentState self') = state"
    by (simp only: cs st')
  have sl2: "read_prop state (s_sliceName ?f') = Inr slice"
    using sl by simp
  let ?self2 = "self'\<lparr>selectors := put name ?f' (selectors self')\<rparr>"
  have next_call: "callSelector self' name o2 maybeState = (s_body f slice o2, slice, ?self2)" for o2
    using callSelector_registered[OF reg' st2 sl2, of o2]
    by (simp add: strict_eq_refl)
  have reg'': "map_of (selectors ?self2) name = Some ?f'"
    by (simp add: map_of_put)
  have st3: "(if truthy maybeState then maybeState else currentState ?self2) = state"
    using st2 by (simp split: if_splits)
  have third_call: "fst (snd (callSelector ?self2 name o3 maybeState)) = slice" for o3
    using callSelector_registered[OF reg'' st3 sl2, of o3]
    by (simp add: strict_eq_refl)
  show ?thesis
  proof (intro conjI allI impI)
    show "passed = slice" if "?same" using that passed by simp
    show "passed = VObj (nextRef self) [ObjectProto] (own_props slice)" if "\<not> ?same"
      using that passed by simp
    show "\<not> strict_eq passed slice" if "\<not> ?same" "ref_of slice < nextRef self"
      using that passed by (simp add: strict_eq_fresh)
    show "res = s_body f passed options" by (rule res)
    show "map_of (selectors self') name = Some ?f'" by (rule reg')
    show "fst (snd (callSelector self' name options2 maybeState)) = slice" for options2
      by (simp add: next_call)
    show "fst (snd (callSelector (snd (snd (callSelector self' name options2 maybeState)))
             name options3 maybeState)) = slice" for options2 options3
      by (simp add: next_call third_call)
  next
    fix options2 maybeState2 state2 slice2
    assume h: "state2 = (if truthy maybeState2 then maybeState2 else currentState self')
          \<and> \<not> strict_eq state state2
          \<and> read_prop state2 (s_sliceName f) = Inr slice2"
    from h have st4: "(if truthy maybeState2 then maybeState2 else currentState self') = state2"
      by (elim conjE) (erule sym)
    from h have "\<not> strict_eq state state2" and "read_prop state2 (s_sliceName f) = Inr slice2"
      by blast+
    then have ne: "\<not> strict_eq (prevState ?f') state2"
      and sl4: "read_prop state2 (s_sliceName ?f') = Inr slice2"
      by simp_all
    from callSelector_registered[OF reg' st4 sl4, of options2] ne
    show p2: "fst (snd (callSelector self' name options2 maybeState2))
                = VObj (nextRef self') [ObjectProto] (own_props slice2)"
      by simp
    show "\<not> strict_eq (fst (snd (callSelector self' name options2 maybeState2))) slice2"
      if "ref_of slice2 < nextRef self'"
      using that by (simp add: p2 strict_eq_fresh)
  qed
qed

theorem selector_memo_guard_witness:
  "map_of (selectors counterStore) ''counter_value''
     = Some \<lparr>s_sliceName = ''counter'', s_body = (\<lambda>stateSlice options. read_prop stateSlice ''value''),
             prevState = VUndef\<rparr>
   \<and> read_prop (currentState counterStore) ''counter'' = Inr (VObj 1 [ObjectProto] [(''value'', VNum 0)])
   \<and> \<not> strict_eq VUndef (currentState counterStore)
   \<and> fst (snd (callSelector counterStore ''counter_value'' VUndef VUndef))
       = VObj 5 [ObjectProto] [(''value'', VNum 0)]
   \<and> \<not> strict_eq (fst (snd (callSelector counterStore ''counter_value'' VUndef VUndef)))
         (VObj 1 [ObjectProto] [(''value'', VNum 0)])
   \<and> fst (snd (callSelector (snd (snd (callSelector counterStore ''counter_value'' VUndef VUndef)))
         ''counter_value'' VUndef VUndef))
       = VObj 1 [ObjectProto] [(''value'', VNum 0)]
   \<and> fst (snd (callSelector
         (snd (snd (callSelector (snd (snd (callSelector counterStore ''counter_value'' VUndef VUndef)))
            ''counter_value'' VUndef VUndef)))
         ''counter_value'' VUndef VUndef))
       = VObj 1 [ObjectProto] [(''value'', VNum 0)]"
proof -
  let ?f = "\<lparr>s_sliceName = ''counter'', s_body = (\<lambda>stateSlice options. read_prop stateSlice ''value''),
             prevState = VUndef\<rparr>"
  let ?slice = "VObj 1 [ObjectProto] [(''value'', VNum 0)]"
  let ?c = "callSelector counterStore ''counter_value'' VUndef VUndef"
  have reg: "map_of (selectors counterStore) ''counter_value'' = Some ?f"
    by (simp add: counterStore_def)
  have st: "currentState counterStore = (if truthy VUndef then VUndef else currentState counterStore)"
    by simp
  have sl: "read_prop (currentState counterStore) (s_sliceName ?f) = Inr ?slice"
    by (simp add: counterStore_def)
  have ne: "\<not> strict_eq (prevState ?f) (currentState counterStore)"
    by (simp add: counterStore_def)
  have fr: "ref_of ?slice < nextRef counterStore"
    by (simp add: counterStore_def)
  have call: "?c = (fst ?c, fst (snd ?c), snd (snd ?c))"
    by simp
  note t = selector_memo_guard[OF reg st sl call]
  from t ne have p: "fst (snd ?c) = VObj (nextRef counterStore) [ObjectProto] (own_props ?slice)"
    by blast
  from t ne fr have d: "\<not> strict_eq (fst (snd ?c)) ?slice"
    by blast
  from t have n2: "fst (snd (callSelector (snd (snd ?c)) ''counter_value'' VUndef VUndef)) = ?slice"
    by blast
  from t have n3: "fst (snd (callSelector
         (snd (snd (callSelector (snd (snd ?c)) ''counter_value'' VUndef VUndef)))
         ''counter_value'' VUndef VUndef)) = ?slice"
    by blast
  from p have p': "fst (snd ?c) = VObj 5 [ObjectProto] [(''value'', VNum 0)]"
    by (simp add: counterStore_def)
  from sl have sl': "read_prop (currentState counterStore) ''counter'' = Inr ?slice"
    by simp
  from ne have ne': "\<not> strict_eq VUndef (currentState counterStore)"
    by simp
  from reg sl' ne' p' d n2 n3 show ?thesis by (intro conjI)
qed





text \<open>
  C9. After construction the registries are read-only: whatever sequence of public
  operations a client calls, and whatever selectors and bound actions it calls among those
  the operations returned, the registered names and the functions bound to them (the
  closures of the selectors, the types of the bound actions, the reducers) are the ones the
  instance started with. Of a registered selector only the memo \<open>prevState\<close> changes; beside
  the registries, a dispatch changes the state of the store.
\<close>

theorem registries_read_only:
  "bindings (foldl perform self calls) = bindings self"
  by (induction calls arbitrary: self) (simp_all add: perform_bindings)

theorem registries_read_only_witness:
  "bindings (foldl perform counterStore
      [Select ''counter'' VUndef VUndef,
       StrictDispatch \<lparr>a_ref = 0, a_type = ''counter_increment'', a_payload = VNum 5,
                       a_meta = None, a_error = False\<rparr>,
       GetActionTypes None])
     = bindings counterStore
   \<and> map (\<lambda>nf. prevState (snd nf)) (selectors (perform counterStore (Select ''counter'' VUndef VUndef)))
       = [currentState counterStore]
   \<and> map (\<lambda>nf. prevState (snd nf)) (selectors counterStore) = [VUndef]"
proof -
  have a: "bindings (foldl perform counterStore
      [Select ''counter'' VUndef VUndef,
       StrictDispatch \<lparr>a_ref = 0, a_type = ''counter_increment'', a_payload = VNum 5,
                       a_meta = None, a_error = False\<rparr>,
       GetActionTypes None])
     = bindings counterStore"
    by (rule registries_read_only)
  have q: "normalizeQuery (selectors counterStore) ''_selectors'' ''counter'' = Inr [''counter_value'']"
    by (simp add: normalizeQuery_def QuerySeparator_def trim_def is_space_def resolveClause_def
          SliceSeparator_def startsWith_def counterStore_def)
  have b: "map (\<lambda>nf. prevState (snd nf))
             (selectors (perform counterStore (Select ''counter'' VUndef VUndef)))
       = [currentState counterStore]"
    by (simp add: select_def getSelectors_def q)
       (simp add: counterStore_def lookup_def invokeSelector_def callSelector_def Let_def)
  have c: "map (\<lambda>nf. prevState (snd nf)) (selectors counterStore) = [VUndef]"
    by (simp add: counterStore_def)
  from a b c show ?thesis by (intro conjI)
qed

end
